theory Spec2Isabelle
  imports Main
begin

section \<open>Objects, properties and the heap\<close>

text \<open>
  The library is one function, \<^verbatim>\<open>TaggedError\<close> in \<^verbatim>\<open>src/index.ts\<close>: it returns a class
  that extends \<^verbatim>\<open>Error\<close>; the constructor of that class copies a payload onto the new
  instance with \<^verbatim>\<open>Object.assign\<close> and re-parents the instance with
  \<^verbatim>\<open>Object.setPrototypeOf\<close>. Both are operations of the host's object model, so the
  embedding is a heap of objects: own properties, a prototype link and the
  extensibility flag, as far as the constructor's statements read and write them.

  Values are the primitives, references to heap objects, and functions. A reference
  is copied as it is; the code never computes with a number, so their carrier is
  immaterial. Function objects are not laid out on the heap: \<open>Class p\<close> is the class
  (constructor function) whose \<^verbatim>\<open>prototype\<close> object lives at \<open>p\<close>, and \<open>Fn s\<close> is the
  built-in function of that name.
\<close>

type_synonym addr = nat

datatype val =
  Undefined | Null | Bool bool | Num int | Str string | Ref addr | Class addr | Fn string

text \<open>
  A data property, with its value and its \<^verbatim>\<open>writable\<close> attribute; or the own \<^verbatim>\<open>stack\<close>
  accessor that the host (V8) attaches to every error it constructs, with the value
  it currently yields: its getter returns that value and its setter stores a new one.
\<close>

datatype property = Data val bool | HostStack val

record obj =
  props :: "string \<rightharpoonup> property"
  proto :: "addr option"
  extensible :: bool

type_synonym heap = "obj list"

text \<open>
  \<^verbatim>\<open>TypeError\<close> is what a rejected assignment or a rejected prototype change throws
  (class bodies are strict code, and \<^verbatim>\<open>Object.assign\<close> and \<^verbatim>\<open>Object.setPrototypeOf\<close>
  throw on failure). \<open>Stuck\<close> is not an exception of the host; it marks where the
  model stops. A walk along a prototype chain is given as many steps as the heap has
  objects, and \<open>Stuck\<close> says that it ran out of them or left the heap, which a chain
  without cycle or dangling link never does. \<open>Stuck\<close> is also the answer where an
  operation would need the inside of a function object or would run a host accessor
  that the receiver inherits instead of owning.
\<close>

datatype error = TypeError | Stuck

subsection \<open>The realm\<close>

text \<open>
  The two built-in prototypes every instance inherits from, with the properties the
  language standard gives them. All of them are writable data properties, except
  \<^verbatim>\<open>Object.prototype.__proto__\<close>, the only accessor of the realm, which the property
  walk below recognises by its holder and its name.
\<close>

definition object_prototype :: addr where
  "object_prototype = 0"

definition error_prototype :: addr where
  "error_prototype = 1"

definition Object_prototype_obj :: obj where
  "Object_prototype_obj =
     \<lparr>props =
        [''constructor'' \<mapsto> Data (Class object_prototype) True,
         ''__defineGetter__'' \<mapsto> Data (Fn ''Object.prototype.__defineGetter__'') True,
         ''__defineSetter__'' \<mapsto> Data (Fn ''Object.prototype.__defineSetter__'') True,
         ''hasOwnProperty'' \<mapsto> Data (Fn ''Object.prototype.hasOwnProperty'') True,
         ''__lookupGetter__'' \<mapsto> Data (Fn ''Object.prototype.__lookupGetter__'') True,
         ''__lookupSetter__'' \<mapsto> Data (Fn ''Object.prototype.__lookupSetter__'') True,
         ''isPrototypeOf'' \<mapsto> Data (Fn ''Object.prototype.isPrototypeOf'') True,
         ''propertyIsEnumerable'' \<mapsto> Data (Fn ''Object.prototype.propertyIsEnumerable'') True,
         ''toString'' \<mapsto> Data (Fn ''Object.prototype.toString'') True,
         ''valueOf'' \<mapsto> Data (Fn ''Object.prototype.valueOf'') True,
         ''toLocaleString'' \<mapsto> Data (Fn ''Object.prototype.toLocaleString'') True],
      proto = None, extensible = True\<rparr>"

definition Error_prototype_obj :: obj where
  "Error_prototype_obj =
     \<lparr>props =
        [''constructor'' \<mapsto> Data (Class error_prototype) True,
         ''name'' \<mapsto> Data (Str ''Error'') True,
         ''message'' \<mapsto> Data (Str '''') True,
         ''toString'' \<mapsto> Data (Fn ''Error.prototype.toString'') True],
      proto = Some object_prototype, extensible = True\<rparr>"

definition realm :: "heap \<Rightarrow> bool" where
  "realm h \<longleftrightarrow>
     2 \<le> length h \<and> h ! object_prototype = Object_prototype_obj
       \<and> h ! error_prototype = Error_prototype_obj"

definition realm0 :: heap where
  "realm0 = [Object_prototype_obj, Error_prototype_obj]"

subsection \<open>Property lookup along the prototype chain\<close>

text \<open>
  The first holder of \<open>k\<close> on the chain of \<open>a\<close> decides: a data property, the host's
  stack accessor together with its holder, the \<^verbatim>\<open>__proto__\<close> accessor, or nothing.
\<close>

datatype lookup = Found val bool | Slot addr val | Accessor | Absent | Unfinished

fun find_prop :: "nat \<Rightarrow> heap \<Rightarrow> addr \<Rightarrow> string \<Rightarrow> lookup" where
  "find_prop 0 h a k = Unfinished"
| "find_prop (Suc n) h a k =
     (if length h \<le> a then Unfinished
      else case props (h ! a) k of
             Some (Data v w) \<Rightarrow> Found v w
           | Some (HostStack v) \<Rightarrow> Slot a v
           | None \<Rightarrow>
               if a = object_prototype \<and> k = ''__proto__'' then Accessor
               else (case proto (h ! a) of
                       None \<Rightarrow> Absent
                     | Some b \<Rightarrow> find_prop n h b k))"

text \<open>
  \<open>chain_has n h p a\<close>: starting at \<open>p\<close> and following prototype links, is \<open>a\<close> met?
  It is the loop of \<^verbatim>\<open>instanceof\<close> (OrdinaryHasInstance) and the cycle check of a
  prototype change (OrdinarySetPrototypeOf).
\<close>

fun chain_has :: "nat \<Rightarrow> heap \<Rightarrow> addr option \<Rightarrow> addr \<Rightarrow> bool option" where
  "chain_has 0 h p a = None"
| "chain_has (Suc n) h None a = Some False"
| "chain_has (Suc n) h (Some b) a =
     (if b = a then Some True
      else if length h \<le> b then None
      else chain_has n h (proto (h ! b)) a)"

subsection \<open>Reading, writing and re-parenting\<close>

text \<open>
  \<^verbatim>\<open>e.k\<close>: the own or inherited value; the \<^verbatim>\<open>__proto__\<close> getter returns the prototype
  of the receiver, the receiver's own stack accessor the value it holds.
\<close>

definition get_prop :: "heap \<Rightarrow> addr \<Rightarrow> string \<Rightarrow> val option" where
  "get_prop h a k =
     (case find_prop (length h) h a k of
        Found v w \<Rightarrow> Some v
      | Slot b v \<Rightarrow> if b = a then Some v else None
      | Accessor \<Rightarrow> Some (case proto (h ! a) of None \<Rightarrow> Null | Some p \<Rightarrow> Ref p)
      | Absent \<Rightarrow> Some Undefined
      | Unfinished \<Rightarrow> None)"

text \<open>\<^verbatim>\<open>e instanceof C\<close>, with \<open>p\<close> the object \<^verbatim>\<open>C.prototype\<close>.\<close>

definition instance_of :: "heap \<Rightarrow> addr \<Rightarrow> addr \<Rightarrow> bool option" where
  "instance_of h a p =
     (if length h \<le> a then None else chain_has (length h) h (proto (h ! a)) p)"

text \<open>\<^verbatim>\<open>Object.setPrototypeOf(a, p)\<close>.\<close>

definition set_prototype_of :: "heap \<Rightarrow> addr \<Rightarrow> addr option \<Rightarrow> error + heap" where
  "set_prototype_of h a p =
     (if length h \<le> a then Inl Stuck
      else if proto (h ! a) = p then Inr h
      else if \<not> extensible (h ! a) then Inl TypeError
      else case chain_has (length h) h p a of
             None \<Rightarrow> Inl Stuck
           | Some True \<Rightarrow> Inl TypeError
           | Some False \<Rightarrow> Inr (h[a := (h ! a)\<lparr>proto := p\<rparr>]))"

text \<open>Creating or overwriting the own data property \<open>k\<close> of \<open>a\<close>, all attributes true.\<close>

definition define_field :: "heap \<Rightarrow> addr \<Rightarrow> string \<Rightarrow> val \<Rightarrow> heap" where
  "define_field h a k v = h[a := (h ! a)\<lparr>props := (props (h ! a))(k \<mapsto> Data v True)\<rparr>]"

text \<open>The setter of the own stack accessor \<open>k\<close> of \<open>a\<close>: the accessor now yields \<open>v\<close>.\<close>

definition store_stack :: "heap \<Rightarrow> addr \<Rightarrow> string \<Rightarrow> val \<Rightarrow> heap" where
  "store_stack h a k v = h[a := (h ! a)\<lparr>props := (props (h ! a))(k \<mapsto> HostStack v)\<rparr>]"

text \<open>
  The last step of an ordinary assignment, on the receiver itself: an own writable
  property takes the value, an own read-only property rejects it, and a missing
  property is created when the receiver is extensible.
\<close>

definition write_own :: "heap \<Rightarrow> addr \<Rightarrow> string \<Rightarrow> val \<Rightarrow> error + heap" where
  "write_own h a k v =
     (case props (h ! a) k of
        Some (Data u w) \<Rightarrow> if w then Inr (define_field h a k v) else Inl TypeError
      | Some (HostStack u) \<Rightarrow> Inl TypeError
      | None \<Rightarrow> if extensible (h ! a) then Inr (define_field h a k v) else Inl TypeError)"

text \<open>
  The setter of \<^verbatim>\<open>Object.prototype.__proto__\<close>: a value that is neither an object nor
  \<^verbatim>\<open>null\<close> is ignored; otherwise the receiver is re-parented. A function is an object,
  but its inside is not on the heap.
\<close>

definition proto_setter :: "heap \<Rightarrow> addr \<Rightarrow> val \<Rightarrow> error + heap" where
  "proto_setter h a v =
     (case v of
        Null \<Rightarrow> set_prototype_of h a None
      | Ref b \<Rightarrow> set_prototype_of h a (Some b)
      | Class p \<Rightarrow> Inl Stuck
      | Fn s \<Rightarrow> Inl Stuck
      | _ \<Rightarrow> Inr h)"

text \<open>
  \<^verbatim>\<open>a.k = v\<close> in strict code (OrdinarySet with the target as receiver): the first
  holder of \<open>k\<close> on the chain decides. A read-only data property, own or inherited,
  rejects the assignment; the \<^verbatim>\<open>__proto__\<close> accessor runs its setter; the receiver's
  own stack accessor stores the value; otherwise the value lands on the receiver as a
  data property.
\<close>

definition set_prop :: "heap \<Rightarrow> addr \<Rightarrow> string \<Rightarrow> val \<Rightarrow> error + heap" where
  "set_prop h a k v =
     (case find_prop (length h) h a k of
        Found u w \<Rightarrow> if w then write_own h a k v else Inl TypeError
      | Slot b u \<Rightarrow> if b = a then Inr (store_stack h a k v) else Inl Stuck
      | Accessor \<Rightarrow> proto_setter h a v
      | Absent \<Rightarrow> write_own h a k v
      | Unfinished \<Rightarrow> Inl Stuck)"

text \<open>
  \<^verbatim>\<open>Object.assign(a, args)\<close>: the own enumerable properties of the payload, in the
  payload's key order, each assigned to the target; the first failure ends the copy.
\<close>

fun object_assign :: "heap \<Rightarrow> addr \<Rightarrow> (string \<times> val) list \<Rightarrow> error + heap" where
  "object_assign h a [] = Inr h"
| "object_assign h a ((k, v) # kvs) =
     (case set_prop h a k v of
        Inl e \<Rightarrow> Inl e
      | Inr h' \<Rightarrow> object_assign h' a kvs)"

subsection \<open>Raising and catching\<close>




section \<open>The factory and the constructor\<close>

text \<open>
  A class returned by \<^verbatim>\<open>TaggedError(tag)\<close>: the tag its constructor closes over and its
  \<^verbatim>\<open>prototype\<close> object, which inherits from \<^verbatim>\<open>Error.prototype\<close> and whose
  \<^verbatim>\<open>constructor\<close> is the class. Every call of the factory evaluates the class
  expression anew and so allocates a new prototype.
\<close>

record cls =
  tag :: string
  prototype :: addr

definition class_prototype_obj :: "addr \<Rightarrow> obj" where
  "class_prototype_obj p =
     \<lparr>props = [''constructor'' \<mapsto> Data (Class p) True],
      proto = Some error_prototype, extensible = True\<rparr>"

definition TaggedError :: "heap \<Rightarrow> string \<Rightarrow> heap \<times> cls" where
  "TaggedError h t =
     (h @ [class_prototype_obj (length h)], \<lparr>tag = t, prototype = length h\<rparr>)"

text \<open>
  The constructor, statement by statement. \<open>nt\<close> is the prototype of \<^verbatim>\<open>new.target\<close>:
  the class's own prototype for \<^verbatim>\<open>new C(args)\<close>, a subclass's for \<^verbatim>\<open>new Sub(args)\<close>.
  \<open>trace\<close> is the text of the stack trace the host captures; the code has no say in it.
  \<^item> \<^verbatim>\<open>super()\<close>: \<^verbatim>\<open>Error\<close> allocates the instance with prototype \<open>nt\<close>; called without
    a message it creates no own \<^verbatim>\<open>message\<close>, and the host attaches the own \<^verbatim>\<open>stack\<close>;
  \<^item> the field initialiser \<^verbatim>\<open>_tag = tag\<close> runs as soon as \<^verbatim>\<open>super()\<close> returns and
    defines an ordinary own property (\<^verbatim>\<open>readonly\<close> is erased by the compiler);
  \<^item> \<^verbatim>\<open>this.name = tag\<close>;
  \<^item> \<^verbatim>\<open>if (args) Object.assign(this, args)\<close>, where \<open>args\<close> is a payload object or
    absent.

  These four make \<open>construct_fields\<close>; the constructor's last statement,
  \<^verbatim>\<open>Object.setPrototypeOf(this, TaggedErrorClass.prototype)\<close>, completes \<open>construct\<close>.

  A payload is the list of its own enumerable properties in the order
  \<^verbatim>\<open>Object.assign\<close> visits them; its values are data, so reading them runs no code.
  Under the compiler's older emit the field initialiser is the assignment
  \<^verbatim>\<open>this._tag = tag\<close>; the two agree unless a subclass's prototype holds a property
  \<^verbatim>\<open>_tag\<close>.
\<close>

definition construct_fields ::
  "heap \<Rightarrow> cls \<Rightarrow> addr \<Rightarrow> string \<Rightarrow> (string \<times> val) list option \<Rightarrow> error + heap \<times> addr"
  where
  "construct_fields h C nt trace args =
     (let this = length h;
          h1 = h @ [\<lparr>props = [''stack'' \<mapsto> HostStack (Str trace)], proto = Some nt,
                     extensible = True\<rparr>];
          h2 = define_field h1 this ''_tag'' (Str (tag C))
      in case set_prop h2 this ''name'' (Str (tag C)) of
           Inl e \<Rightarrow> Inl e
         | Inr h3 \<Rightarrow>
             (case (case args of None \<Rightarrow> Inr h3 | Some m \<Rightarrow> object_assign h3 this m) of
                Inl e \<Rightarrow> Inl e
              | Inr h4 \<Rightarrow> Inr (h4, this)))"

definition construct ::
  "heap \<Rightarrow> cls \<Rightarrow> addr \<Rightarrow> string \<Rightarrow> (string \<times> val) list option \<Rightarrow> error + heap \<times> addr"
  where
  "construct h C nt trace args =
     (case construct_fields h C nt trace args of
        Inl e \<Rightarrow> Inl e
      | Inr (h4, this) \<Rightarrow>
          (case set_prototype_of h4 this (Some (prototype C)) of
             Inl e \<Rightarrow> Inl e
           | Inr h5 \<Rightarrow> Inr (h5, this)))"

text \<open>A class as the factory left it on the heap: its prototype object untouched.\<close>

definition class_on :: "heap \<Rightarrow> cls \<Rightarrow> bool" where
  "class_on h C \<longleftrightarrow>
     2 \<le> prototype C \<and> prototype C < length h
       \<and> h ! prototype C = class_prototype_obj (prototype C)"

text \<open>Every own data property of an object accepts assignment.\<close>

definition writable_all :: "obj \<Rightarrow> bool" where
  "writable_all ob \<longleftrightarrow> (\<forall>k u w. props ob k = Some (Data u w) \<longrightarrow> w)"

text \<open>The host's accessor sits under the key \<^verbatim>\<open>stack\<close> and nowhere else.\<close>

definition stack_only :: "obj \<Rightarrow> bool" where
  "stack_only ob \<longleftrightarrow> (\<forall>k u. props ob k = Some (HostStack u) \<longrightarrow> k = ''stack'')"

text \<open>
  The property an assignment of \<open>v\<close> leaves under a key of the receiver that held \<open>p\<close>:
  the host's accessor stays an accessor, anything else is a writable data property.
\<close>

definition assigned :: "property option \<Rightarrow> val \<Rightarrow> property" where
  "assigned p v = (case p of Some (HostStack u) \<Rightarrow> HostStack v | _ \<Rightarrow> Data v True)"

text \<open>The keys of the payload a constructor call passes, none when it passes no payload.\<close>

definition payload_keys :: "(string \<times> val) list option \<Rightarrow> string set" where
  "payload_keys args = (case args of None \<Rightarrow> {} | Some m \<Rightarrow> fst ` set m)"

text \<open>
  An instance as the constructor leaves it: in a heap with the realm and the class in
  place, allocated after the class and inheriting from the class's prototype.
\<close>

definition settled :: "heap \<Rightarrow> cls \<Rightarrow> addr \<Rightarrow> bool" where
  "settled h C e \<longleftrightarrow>
     realm h \<and> class_on h C \<and> prototype C < e \<and> e < length h
       \<and> proto (h ! e) = Some (prototype C)"

section \<open>Calls, observations and the README's example\<close>

text \<open>\<^verbatim>\<open>new (TaggedError(t))(args)\<close>: the factory, then its class constructed directly.\<close>

definition new_TaggedError ::
  "heap \<Rightarrow> string \<Rightarrow> string \<Rightarrow> (string \<times> val) list option \<Rightarrow> error + heap \<times> addr" where
  "new_TaggedError h t trace args =
     (case TaggedError h t of (h1, C) \<Rightarrow> construct h1 C (prototype C) trace args)"

text \<open>
  What a caller observes of a constructor call: a property read \<^verbatim>\<open>e.k\<close>, an own
  property, and an assignment \<^verbatim>\<open>e.k = v\<close> on the instance. A call that threw has
  nothing to observe.
\<close>

definition result_get :: "error + heap \<times> addr \<Rightarrow> string \<Rightarrow> val option" where
  "result_get r k = (case r of Inl x \<Rightarrow> None | Inr (h, e) \<Rightarrow> get_prop h e k)"

definition result_own :: "error + heap \<times> addr \<Rightarrow> string \<Rightarrow> property option" where
  "result_own r k = (case r of Inl x \<Rightarrow> None | Inr (h, e) \<Rightarrow> props (h ! e) k)"

definition result_assign :: "error + heap \<times> addr \<Rightarrow> string \<Rightarrow> val \<Rightarrow> error + heap \<times> addr" where
  "result_assign r k v =
     (case r of
        Inl x \<Rightarrow> Inl x
      | Inr (h, e) \<Rightarrow> (case set_prop h e k v of Inl x \<Rightarrow> Inl x | Inr h' \<Rightarrow> Inr (h', e)))"

text \<open>
  The class that the README's call \<^verbatim>\<open>TaggedError("NetworkError")\<close> returns, in the
  heap the call leaves, the README's payload
  \<^verbatim>\<open>{status: 500, endpoint: "/api/users"}\<close>, and a stack trace for the examples.
\<close>

definition example_heap :: heap where
  "example_heap = fst (TaggedError realm0 ''NetworkError'')"

definition NetworkError :: cls where
  "NetworkError = snd (TaggedError realm0 ''NetworkError'')"

definition network_payload :: "(string \<times> val) list" where
  "network_payload = [(''status'', Num 500), (''endpoint'', Str ''/api/users'')]"

definition example_trace :: string where
  "example_trace = ''Error at new TaggedErrorClass''"

text \<open>
  \<^verbatim>\<open>Object.freeze({x: 0})\<close>, an object a payload can refer to, and a subclass prototype
  with one member, as \<^verbatim>\<open>class Sub extends C { describe() {...} }\<close> creates it for a
  class whose prototype is \<open>p\<close>; \<open>s\<close> is the address the subclass prototype gets.
\<close>

definition frozen_point :: obj where
  "frozen_point =
     \<lparr>props = [''x'' \<mapsto> Data (Num 0) False], proto = Some object_prototype, extensible = False\<rparr>"

definition subclass_prototype_obj :: "addr \<Rightarrow> addr \<Rightarrow> obj" where
  "subclass_prototype_obj s p =
     \<lparr>props = [''constructor'' \<mapsto> Data (Class s) True,
               ''describe'' \<mapsto> Data (Fn ''Sub.prototype.describe'') True],
      proto = Some p, extensible = True\<rparr>"

section \<open>Frame properties of the object operations\<close>

lemma find_prop_Accessor: "find_prop n h a k = Accessor \<Longrightarrow> k = ''__proto__''"
  by (induction n arbitrary: a) (auto split: if_splits option.splits property.splits)

lemma find_prop_Slot: "find_prop n h a k = Slot b u \<Longrightarrow> props (h ! b) k = Some (HostStack u)"
  by (induction n arbitrary: a) (auto split: if_splits option.splits property.splits)

lemma length_define_field [simp]: "length (define_field h a k v) = length h"
  by (simp add: define_field_def)

lemma define_field_other [simp]: "b \<noteq> a \<Longrightarrow> define_field h a k v ! b = h ! b"
  by (simp add: define_field_def)

lemma define_field_same:
  "a < length h \<Longrightarrow>
     define_field h a k v ! a = (h ! a)\<lparr>props := (props (h ! a))(k \<mapsto> Data v True)\<rparr>"
  by (simp add: define_field_def)

lemma length_store_stack [simp]: "length (store_stack h a k v) = length h"
  by (simp add: store_stack_def)

lemma store_stack_other [simp]: "b \<noteq> a \<Longrightarrow> store_stack h a k v ! b = h ! b"
  by (simp add: store_stack_def)

lemma store_stack_same:
  "a < length h \<Longrightarrow>
     store_stack h a k v ! a = (h ! a)\<lparr>props := (props (h ! a))(k \<mapsto> HostStack v)\<rparr>"
  by (simp add: store_stack_def)

lemma find_prop_own:
  "a < length h \<Longrightarrow> props (h ! a) k = Some (Data v w) \<Longrightarrow> find_prop (length h) h a k = Found v w"
  by (cases "length h") auto

lemma find_prop_own_stack:
  "a < length h \<Longrightarrow> props (h ! a) k = Some (HostStack v) \<Longrightarrow>
     find_prop (length h) h a k = Slot a v"
  by (cases "length h") auto

lemma get_prop_own:
  "a < length h \<Longrightarrow> props (h ! a) k = Some (Data v w) \<Longrightarrow> get_prop h a k = Some v"
  by (simp add: get_prop_def find_prop_own)

lemma get_prop_own_stack:
  "a < length h \<Longrightarrow> props (h ! a) k = Some (HostStack v) \<Longrightarrow> get_prop h a k = Some v"
  by (simp add: get_prop_def find_prop_own_stack)

lemma get_prop_assigned:
  "a < length h \<Longrightarrow> props (h ! a) k = Some (assigned p v) \<Longrightarrow> get_prop h a k = Some v"
  by (auto simp: assigned_def get_prop_own get_prop_own_stack
      split: option.splits property.splits)

lemma set_prototype_of_Inr:
  assumes "set_prototype_of h a p = Inr h'"
  shows "a < length h" and "length h' = length h" and "b \<noteq> a \<Longrightarrow> h' ! b = h ! b"
    and "props (h' ! a) = props (h ! a)" and "extensible (h' ! a) = extensible (h ! a)"
    and "proto (h' ! a) = p" and "h' = h[a := (h ! a)\<lparr>proto := p\<rparr>]"
  using assms
  by (auto simp: set_prototype_of_def list_update_same_conv
      split: if_splits option.splits bool.splits)

lemma write_own_Inr:
  assumes "write_own h a k v = Inr h'"
  shows "h' = define_field h a k v" and "props (h ! a) k \<noteq> Some (HostStack u)"
  using assms by (auto simp: write_own_def split: option.splits property.splits if_splits)

lemma proto_setter_Inr:
  assumes "proto_setter h a v = Inr h'" and "a < length h"
  shows "length h' = length h" and "b \<noteq> a \<Longrightarrow> h' ! b = h ! b"
    and "props (h' ! a) = props (h ! a)" and "extensible (h' ! a) = extensible (h ! a)"
  using assms
  by (auto simp: proto_setter_def split: val.splits dest: set_prototype_of_Inr)

lemma set_prop_cases:
  assumes "set_prop h a k v = Inr h'"
  shows "(h' = define_field h a k v \<and> (\<forall>u. props (h ! a) k \<noteq> Some (HostStack u)))
       \<or> (k = ''__proto__'' \<and> proto_setter h a v = Inr h')
       \<or> (\<exists>u. props (h ! a) k = Some (HostStack u) \<and> h' = store_stack h a k v)"
  using assms
  by (auto simp: set_prop_def split: lookup.splits if_splits
      dest: write_own_Inr find_prop_Accessor find_prop_Slot)

lemma set_prop_Inr:
  assumes "set_prop h a k v = Inr h'" and "a < length h"
  shows "length h' = length h" and "b \<noteq> a \<Longrightarrow> h' ! b = h ! b"
    and "extensible (h' ! a) = extensible (h ! a)"
    and "k' \<noteq> k \<Longrightarrow> props (h' ! a) k' = props (h ! a) k'"
    and "k \<noteq> ''__proto__'' \<Longrightarrow> props (h' ! a) k = Some (assigned (props (h ! a) k) v)"
    and "k \<noteq> ''__proto__'' \<Longrightarrow> proto (h' ! a) = proto (h ! a)"
  using set_prop_cases [OF assms(1)] assms(2)
  by (auto simp: define_field_same store_stack_same assigned_def
      split: option.splits property.splits dest: proto_setter_Inr)

lemma set_prop_writable_all:
  assumes "set_prop h a k v = Inr h'" and "a < length h" and "writable_all (h ! a)"
  shows "writable_all (h' ! a)"
  using set_prop_cases [OF assms(1)] assms(2,3)
  by (auto simp: define_field_same store_stack_same writable_all_def proto_setter_Inr(3)
      split: if_splits) blast+

lemma set_prop_stack_only:
  assumes "set_prop h a k v = Inr h'" and "a < length h" and "stack_only (h ! a)"
  shows "stack_only (h' ! a)"
  using set_prop_cases [OF assms(1)] assms(2,3)
  by (auto simp: define_field_same store_stack_same stack_only_def proto_setter_Inr(3)
      split: if_splits)

lemma set_prop_keeps_own:
  assumes "set_prop h a k v = Inr h'" and "a < length h" and "props (h ! a) k' \<noteq> None"
  shows "props (h' ! a) k' \<noteq> None"
proof (cases "k' = k")
  case False
  with set_prop_Inr(4) [OF assms(1,2)] assms(3) show ?thesis by simp
next
  case True
  with set_prop_cases [OF assms(1)] assms(2,3) show ?thesis
    by (auto simp: define_field_same store_stack_same proto_setter_Inr(3))
qed

lemma object_assign_frame:
  assumes "object_assign h a m = Inr h'" and "a < length h"
  shows "length h' = length h \<and> (\<forall>b. b \<noteq> a \<longrightarrow> h' ! b = h ! b)
           \<and> extensible (h' ! a) = extensible (h ! a)
           \<and> (writable_all (h ! a) \<longrightarrow> writable_all (h' ! a))
           \<and> (stack_only (h ! a) \<longrightarrow> stack_only (h' ! a))
           \<and> (''__proto__'' \<notin> fst ` set m \<longrightarrow> proto (h' ! a) = proto (h ! a))
           \<and> (\<forall>k. k \<notin> fst ` set m \<longrightarrow> props (h' ! a) k = props (h ! a) k)"
  using assms
proof (induction m arbitrary: h)
  case Nil
  then show ?case by simp
next
  case (Cons kv m)
  obtain k v where kv: "kv = (k, v)" by (cases kv)
  from Cons.prems kv obtain h1 where s: "set_prop h a k v = Inr h1"
    and r: "object_assign h1 a m = Inr h'"
    by (auto split: sum.splits)
  note f = set_prop_Inr [OF s Cons.prems(2)]
  have "a < length h1" using f(1) Cons.prems(2) by simp
  from Cons.IH [OF r this] f set_prop_writable_all [OF s Cons.prems(2)]
    set_prop_stack_only [OF s Cons.prems(2)] kv
  show ?case by auto
qed

lemma object_assign_value:
  assumes "object_assign h a m = Inr h'" and "a < length h"
    and "distinct (map fst m)" and "(k, v) \<in> set m" and "k \<noteq> ''__proto__''"
  shows "props (h' ! a) k = Some (assigned (props (h ! a) k) v)"
  using assms
proof (induction m arbitrary: h)
  case Nil
  then show ?case by simp
next
  case (Cons kv m)
  obtain k1 v1 where kv: "kv = (k1, v1)" by (cases kv)
  from Cons.prems kv obtain h1 where s: "set_prop h a k1 v1 = Inr h1"
    and r: "object_assign h1 a m = Inr h'"
    by (auto split: sum.splits)
  note f = set_prop_Inr [OF s Cons.prems(2)]
  have a1: "a < length h1" using f(1) Cons.prems(2) by simp
  show ?case
  proof (cases "(k, v) \<in> set m")
    case True
    with Cons.prems kv have "k \<noteq> k1" by force
    then have "props (h1 ! a) k = props (h ! a) k" by (rule f(4))
    with Cons.IH [OF r a1] True Cons.prems show ?thesis by simp
  next
    case False
    with Cons.prems kv have e: "k1 = k" "v1 = v" by auto
    with Cons.prems kv have "k \<notin> fst ` set m" by auto
    with object_assign_frame [OF r a1] have "props (h' ! a) k = props (h1 ! a) k" by blast
    with f(5) e Cons.prems(5) show ?thesis by simp
  qed
qed

lemma object_assign_own:
  assumes "object_assign h a m = Inr h'" and "a < length h"
    and "props (h ! a) k \<noteq> None \<or> (k \<in> fst ` set m \<and> k \<noteq> ''__proto__'')"
  shows "props (h' ! a) k \<noteq> None"
  using assms
proof (induction m arbitrary: h)
  case Nil
  then show ?case by simp
next
  case (Cons kv m)
  obtain k1 v1 where kv: "kv = (k1, v1)" by (cases kv)
  from Cons.prems kv obtain h1 where s: "set_prop h a k1 v1 = Inr h1"
    and r: "object_assign h1 a m = Inr h'"
    by (auto split: sum.splits)
  have a1: "a < length h1" using set_prop_Inr(1) [OF s Cons.prems(2)] Cons.prems(2) by simp
  have "props (h1 ! a) k \<noteq> None \<or> (k \<in> fst ` set m \<and> k \<noteq> ''__proto__'')"
  proof (cases "props (h ! a) k \<noteq> None")
    case True
    then show ?thesis using set_prop_keeps_own [OF s Cons.prems(2)] by blast
  next
    case False
    with Cons.prems(3) kv have k: "k \<noteq> ''__proto__''" and "k = k1 \<or> k \<in> fst ` set m" by auto
    then show ?thesis using set_prop_Inr(5) [OF s Cons.prems(2)] by auto
  qed
  then show ?case by (rule Cons.IH [OF r a1])
qed

section \<open>What the constructor leaves\<close>

lemma construct_fields_steps:
  assumes c: "construct_fields h C nt tr args = Inr (h4, e)"
  obtains h3 where
    "set_prop (define_field
        (h @ [\<lparr>props = [''stack'' \<mapsto> HostStack (Str tr)], proto = Some nt, extensible = True\<rparr>])
        (length h) ''_tag'' (Str (tag C))) (length h) ''name'' (Str (tag C)) = Inr h3"
    and "(case args of None \<Rightarrow> Inr h3 | Some m \<Rightarrow> object_assign h3 (length h) m) = Inr h4"
    and "e = length h"
proof -
  define h2 where
    "h2 = define_field
        (h @ [\<lparr>props = [''stack'' \<mapsto> HostStack (Str tr)], proto = Some nt, extensible = True\<rparr>])
        (length h) ''_tag'' (Str (tag C))"
  have c': "(case set_prop h2 (length h) ''name'' (Str (tag C)) of
           Inl x \<Rightarrow> Inl x
         | Inr h3 \<Rightarrow>
             (case (case args of None \<Rightarrow> Inr h3 | Some m \<Rightarrow> object_assign h3 (length h) m) of
                Inl x \<Rightarrow> Inl x
              | Inr h4 \<Rightarrow> Inr (h4, length h))) = Inr (h4, e)"
    using c unfolding construct_fields_def Let_def h2_def .
  then obtain h3 where s3: "set_prop h2 (length h) ''name'' (Str (tag C)) = Inr h3"
    by (cases "set_prop h2 (length h) ''name'' (Str (tag C))") auto
  with c' have
    s4: "(case args of None \<Rightarrow> Inr h3 | Some m \<Rightarrow> object_assign h3 (length h) m) = Inr h4"
    and e: "e = length h"
    by (cases "case args of None \<Rightarrow> Inr h3 | Some m \<Rightarrow> object_assign h3 (length h) m"; simp)+
  from s3 s4 e show thesis unfolding h2_def by (rule that)
qed

lemma construct_fields_Inr:
  assumes c: "construct_fields h C nt tr args = Inr (h4, e)"
  shows "e = length h" and "length h4 = Suc (length h)"
    and "b < length h \<Longrightarrow> h4 ! b = h ! b"
    and "''__proto__'' \<notin> payload_keys args \<Longrightarrow> proto (h4 ! e) = Some nt"
    and "extensible (h4 ! e)" and "writable_all (h4 ! e)"
    and "k \<notin> payload_keys args \<Longrightarrow> k \<noteq> ''_tag'' \<Longrightarrow> k \<noteq> ''name'' \<Longrightarrow> k \<noteq> ''stack''
           \<Longrightarrow> props (h4 ! e) k = None"
    and "''_tag'' \<notin> payload_keys args \<Longrightarrow> props (h4 ! e) ''_tag'' = Some (Data (Str (tag C)) True)"
    and "''name'' \<notin> payload_keys args \<Longrightarrow> props (h4 ! e) ''name'' = Some (Data (Str (tag C)) True)"
    and "args = Some m \<Longrightarrow> distinct (map fst m) \<Longrightarrow> (k, v) \<in> set m \<Longrightarrow> k \<noteq> ''__proto__''
           \<Longrightarrow> props (h4 ! e) k = Some (if k = ''stack'' then HostStack v else Data v True)"
    and "''stack'' \<notin> payload_keys args \<Longrightarrow> props (h4 ! e) ''stack'' = Some (HostStack (Str tr))"
    and "stack_only (h4 ! e)"
    and "k = ''_tag'' \<or> k = ''name'' \<or> k = ''stack''
           \<or> (k \<in> payload_keys args \<and> k \<noteq> ''__proto__'') \<Longrightarrow> props (h4 ! e) k \<noteq> None"
proof -
  define h1 where
    "h1 = h @ [\<lparr>props = [''stack'' \<mapsto> HostStack (Str tr)], proto = Some nt, extensible = True\<rparr>]"
  define h2 where "h2 = define_field h1 (length h) ''_tag'' (Str (tag C))"
  from c obtain h3 where s3: "set_prop h2 (length h) ''name'' (Str (tag C)) = Inr h3"
    and s4: "(case args of None \<Rightarrow> Inr h3 | Some m \<Rightarrow> object_assign h3 (length h) m) = Inr h4"
    and e: "e = length h"
    unfolding h2_def h1_def by (rule construct_fields_steps)
  have l2: "length h2 = Suc (length h)" and a2: "length h < length h2"
    by (simp_all add: h2_def h1_def)
  have o2: "h2 ! length h =
      \<lparr>props = [''stack'' \<mapsto> HostStack (Str tr), ''_tag'' \<mapsto> Data (Str (tag C)) True],
       proto = Some nt, extensible = True\<rparr>"
    by (simp add: h2_def h1_def define_field_same)
  have b2: "b < length h \<Longrightarrow> h2 ! b = h ! b" for b
    by (simp add: h2_def h1_def nth_append)
  note f3 = set_prop_Inr [OF s3 a2]
  have "writable_all (h2 ! length h)"
    by (auto simp: o2 writable_all_def split: if_splits)
  then have w3: "writable_all (h3 ! length h)"
    by (rule set_prop_writable_all [OF s3 a2])
  have "stack_only (h2 ! length h)"
    by (auto simp: o2 stack_only_def split: if_splits)
  then have t3: "stack_only (h3 ! length h)"
    by (rule set_prop_stack_only [OF s3 a2])
  have a3: "length h < length h3" using f3(1) a2 by simp
  have p3: "props (h3 ! length h) =
      [''stack'' \<mapsto> HostStack (Str tr), ''_tag'' \<mapsto> Data (Str (tag C)) True,
       ''name'' \<mapsto> Data (Str (tag C)) True]"
  proof
    fix k'
    show "props (h3 ! length h) k' =
      [''stack'' \<mapsto> HostStack (Str tr), ''_tag'' \<mapsto> Data (Str (tag C)) True,
       ''name'' \<mapsto> Data (Str (tag C)) True] k'"
      using f3(4) [of k'] f3(5) by (cases "k' = ''name''") (simp_all add: o2 assigned_def)
  qed
  have q3: "proto (h3 ! length h) = Some nt" using f3(6) by (simp add: o2)
  have f4: "length h4 = length h3 \<and> (\<forall>b. b \<noteq> length h \<longrightarrow> h4 ! b = h3 ! b)
           \<and> extensible (h4 ! length h) = extensible (h3 ! length h)
           \<and> (writable_all (h3 ! length h) \<longrightarrow> writable_all (h4 ! length h))
           \<and> (stack_only (h3 ! length h) \<longrightarrow> stack_only (h4 ! length h))
           \<and> (''__proto__'' \<notin> payload_keys args \<longrightarrow>
                proto (h4 ! length h) = proto (h3 ! length h))
           \<and> (\<forall>k. k \<notin> payload_keys args \<longrightarrow> props (h4 ! length h) k = props (h3 ! length h) k)"
  proof (cases args)
    case None
    with s4 show ?thesis by simp
  next
    case (Some m)
    with s4 have "object_assign h3 (length h) m = Inr h4" by simp
    from object_assign_frame [OF this a3] Some show ?thesis by (simp add: payload_keys_def)
  qed
  show "e = length h" by (rule e)
  show "length h4 = Suc (length h)" using f4 f3(1) l2 by simp
  show "b < length h \<Longrightarrow> h4 ! b = h ! b"
    using f4 f3(2) [of b] b2 [of b] by simp
  show "''__proto__'' \<notin> payload_keys args \<Longrightarrow> proto (h4 ! e) = Some nt"
    using f4 q3 e by simp
  show "extensible (h4 ! e)" using f4 f3(3) o2 e by simp
  show "writable_all (h4 ! e)" using f4 w3 e by blast
  show "stack_only (h4 ! e)" using f4 t3 e by blast
  show "k \<notin> payload_keys args \<Longrightarrow> k \<noteq> ''_tag'' \<Longrightarrow> k \<noteq> ''name'' \<Longrightarrow> k \<noteq> ''stack''
           \<Longrightarrow> props (h4 ! e) k = None"
    using f4 p3 e by simp
  show "''_tag'' \<notin> payload_keys args \<Longrightarrow> props (h4 ! e) ''_tag'' = Some (Data (Str (tag C)) True)"
    using f4 p3 e by simp
  show "''name'' \<notin> payload_keys args \<Longrightarrow> props (h4 ! e) ''name'' = Some (Data (Str (tag C)) True)"
    using f4 p3 e by simp
  show "''stack'' \<notin> payload_keys args \<Longrightarrow> props (h4 ! e) ''stack'' = Some (HostStack (Str tr))"
    using f4 p3 e by simp
  show "props (h4 ! e) k = Some (if k = ''stack'' then HostStack v else Data v True)"
    if "args = Some m" "distinct (map fst m)" "(k, v) \<in> set m" "k \<noteq> ''__proto__''"
  proof -
    from s4 that(1) have "object_assign h3 (length h) m = Inr h4" by simp
    from object_assign_value [OF this a3 that(2,3,4)] e show ?thesis
      by (simp add: p3 assigned_def)
  qed
  show "props (h4 ! e) k \<noteq> None"
    if k: "k = ''_tag'' \<or> k = ''name'' \<or> k = ''stack''
           \<or> (k \<in> payload_keys args \<and> k \<noteq> ''__proto__'')"
  proof (cases args)
    case None
    with s4 have "h4 = h3" by simp
    with k None p3 e show ?thesis by (auto simp: payload_keys_def)
  next
    case (Some m)
    with s4 have s: "object_assign h3 (length h) m = Inr h4" by simp
    have "props (h3 ! length h) k \<noteq> None \<or> (k \<in> fst ` set m \<and> k \<noteq> ''__proto__'')"
      using k Some p3 by (auto simp: payload_keys_def)
    with s a3 have "props (h4 ! length h) k \<noteq> None" by (rule object_assign_own)
    with e show ?thesis by simp
  qed
qed

lemma construct_split:
  assumes "construct h C nt tr args = Inr (h', e)"
  obtains h4 where "construct_fields h C nt tr args = Inr (h4, e)"
    and "set_prototype_of h4 e (Some (prototype C)) = Inr h'"
proof -
  from assms obtain h4 e4 where f: "construct_fields h C nt tr args = Inr (h4, e4)"
    by (cases "construct_fields h C nt tr args") (auto simp: construct_def)
  with assms have "set_prototype_of h4 e4 (Some (prototype C)) = Inr h' \<and> e4 = e"
    by (cases "set_prototype_of h4 e4 (Some (prototype C))") (auto simp: construct_def)
  with f show thesis by (auto intro: that)
qed

lemma construct_Inr:
  assumes c: "construct h C nt tr args = Inr (h', e)"
  shows "e = length h" and "length h' = Suc (length h)"
    and "b < length h \<Longrightarrow> h' ! b = h ! b"
    and "proto (h' ! e) = Some (prototype C)"
    and "extensible (h' ! e)" and "writable_all (h' ! e)"
    and "k \<notin> payload_keys args \<Longrightarrow> k \<noteq> ''_tag'' \<Longrightarrow> k \<noteq> ''name'' \<Longrightarrow> k \<noteq> ''stack''
           \<Longrightarrow> props (h' ! e) k = None"
    and "''_tag'' \<notin> payload_keys args \<Longrightarrow> props (h' ! e) ''_tag'' = Some (Data (Str (tag C)) True)"
    and "''name'' \<notin> payload_keys args \<Longrightarrow> props (h' ! e) ''name'' = Some (Data (Str (tag C)) True)"
    and "args = Some m \<Longrightarrow> distinct (map fst m) \<Longrightarrow> (k, v) \<in> set m \<Longrightarrow> k \<noteq> ''__proto__''
           \<Longrightarrow> props (h' ! e) k = Some (if k = ''stack'' then HostStack v else Data v True)"
    and "''stack'' \<notin> payload_keys args \<Longrightarrow> props (h' ! e) ''stack'' = Some (HostStack (Str tr))"
    and "stack_only (h' ! e)"
    and "k = ''_tag'' \<or> k = ''name'' \<or> k = ''stack''
           \<or> (k \<in> payload_keys args \<and> k \<noteq> ''__proto__'') \<Longrightarrow> props (h' ! e) k \<noteq> None"
proof -
  from c obtain h4 where f: "construct_fields h C nt tr args = Inr (h4, e)"
    and s: "set_prototype_of h4 e (Some (prototype C)) = Inr h'"
    by (rule construct_split)
  note g = construct_fields_Inr [OF f] and t = set_prototype_of_Inr [OF s]
  have ne: "b < length h \<Longrightarrow> b \<noteq> e" for b using g(1) by simp
  show "e = length h" by (rule g(1))
  show "length h' = Suc (length h)" using t(2) g(2) by simp
  show "b < length h \<Longrightarrow> h' ! b = h ! b" using t(3) [of b] g(3) [of b] ne [of b] by simp
  show "proto (h' ! e) = Some (prototype C)" by (rule t(6))
  show "extensible (h' ! e)" using t(5) g(5) by simp
  show "writable_all (h' ! e)" using t(4) g(6) by (simp add: writable_all_def)
  show "stack_only (h' ! e)" using t(4) g(12) by (simp add: stack_only_def)
  show "k \<notin> payload_keys args \<Longrightarrow> k \<noteq> ''_tag'' \<Longrightarrow> k \<noteq> ''name'' \<Longrightarrow> k \<noteq> ''stack''
           \<Longrightarrow> props (h' ! e) k = None"
    using t(4) g(7) by simp
  show "''_tag'' \<notin> payload_keys args \<Longrightarrow> props (h' ! e) ''_tag'' = Some (Data (Str (tag C)) True)"
    using t(4) g(8) by simp
  show "''name'' \<notin> payload_keys args \<Longrightarrow> props (h' ! e) ''name'' = Some (Data (Str (tag C)) True)"
    using t(4) g(9) by simp
  show "args = Some m \<Longrightarrow> distinct (map fst m) \<Longrightarrow> (k, v) \<in> set m \<Longrightarrow> k \<noteq> ''__proto__''
           \<Longrightarrow> props (h' ! e) k = Some (if k = ''stack'' then HostStack v else Data v True)"
    using t(4) g(10) by simp
  show "''stack'' \<notin> payload_keys args \<Longrightarrow> props (h' ! e) ''stack'' = Some (HostStack (Str tr))"
    using t(4) g(11) by simp
  show "k = ''_tag'' \<or> k = ''name'' \<or> k = ''stack''
           \<or> (k \<in> payload_keys args \<and> k \<noteq> ''__proto__'') \<Longrightarrow> props (h' ! e) k \<noteq> None"
    using t(4) g(13) by simp
qed

section \<open>Instances on the built-in chain\<close>

lemma builtin_props_writable:
  "props Object_prototype_obj k = Some p \<Longrightarrow> \<exists>u. p = Data u True"
  "props Error_prototype_obj k = Some p \<Longrightarrow> \<exists>u. p = Data u True"
  "props (class_prototype_obj c) k = Some p \<Longrightarrow> \<exists>u. p = Data u True"
  by (auto simp: Object_prototype_obj_def Error_prototype_obj_def class_prototype_obj_def
      split: if_splits)

lemma construct_settled:
  assumes "realm h" and "class_on h C" and c: "construct h C nt tr args = Inr (h', e)"
  shows "settled h' C e"
proof -
  from assms(1,2) have l: "0 < length h" "1 < length h" "prototype C < length h"
    by (auto simp: realm_def class_on_def)
  note f = construct_Inr(3) [OF c]
  have "h' ! 0 = h ! 0" "h' ! 1 = h ! 1" "h' ! prototype C = h ! prototype C"
    using l by (simp_all add: f)
  with assms(1,2) construct_Inr(1,2,4) [OF c] show ?thesis
    by (simp add: settled_def realm_def class_on_def object_prototype_def error_prototype_def)
qed

lemma settled_length:
  assumes "settled h C e"
  obtains n where "length h = Suc (Suc (Suc (Suc n)))"
proof -
  from assms have "4 \<le> length h" by (simp add: settled_def class_on_def)
  then have "length h = Suc (Suc (Suc (Suc (length h - 4))))" by simp
  then show thesis by (rule that)
qed

text \<open>
  The walk from a class's prototype ends within three steps, whatever the fuel: at a
  writable data property, at the \<^verbatim>\<open>__proto__\<close> accessor, or at the end of the chain.
\<close>

lemma class_chain_find:
  assumes "realm h" and "class_on h C"
  shows "find_prop (Suc (Suc (Suc n))) h (prototype C) k =
           (case props (class_prototype_obj (prototype C)) k of
              Some (Data v w) \<Rightarrow> Found v w
            | Some (HostStack v) \<Rightarrow> Slot (prototype C) v
            | None \<Rightarrow>
                (case props Error_prototype_obj k of
                   Some (Data v w) \<Rightarrow> Found v w
                 | Some (HostStack v) \<Rightarrow> Slot error_prototype v
                 | None \<Rightarrow>
                     (case props Object_prototype_obj k of
                        Some (Data v w) \<Rightarrow> Found v w
                      | Some (HostStack v) \<Rightarrow> Slot object_prototype v
                      | None \<Rightarrow> if k = ''__proto__'' then Accessor else Absent)))"
proof -
  from assms have p: "prototype C < length h" "prototype C \<noteq> object_prototype"
    "h ! prototype C = class_prototype_obj (prototype C)"
    and e: "error_prototype < length h" "error_prototype \<noteq> object_prototype"
    "h ! error_prototype = Error_prototype_obj"
    and o: "object_prototype < length h" "h ! object_prototype = Object_prototype_obj"
    by (auto simp: realm_def class_on_def object_prototype_def error_prototype_def)
  have q: "proto (class_prototype_obj (prototype C)) = Some error_prototype"
    "proto Error_prototype_obj = Some object_prototype" "proto Object_prototype_obj = None"
    by (simp_all add: class_prototype_obj_def Error_prototype_obj_def Object_prototype_obj_def)
  show ?thesis
    using p e o q
    by (simp split: option.splits property.splits)
qed

lemma class_chain_result:
  assumes "realm h" and "class_on h C"
  shows "(\<exists>u. find_prop (Suc (Suc (Suc n))) h (prototype C) k = Found u True)
       \<or> (find_prop (Suc (Suc (Suc n))) h (prototype C) k = Accessor \<and> k = ''__proto__'')
       \<or> (find_prop (Suc (Suc (Suc n))) h (prototype C) k = Absent \<and> k \<noteq> ''__proto__'')"
proof (cases "props (class_prototype_obj (prototype C)) k")
  case (Some p)
  with builtin_props_writable(3) obtain u where "p = Data u True" by blast
  with Some show ?thesis by (simp only: class_chain_find [OF assms]) simp
next
  case c: None
  show ?thesis
  proof (cases "props Error_prototype_obj k")
    case (Some p)
    with builtin_props_writable(2) obtain u where "p = Data u True" by blast
    with c Some show ?thesis by (simp only: class_chain_find [OF assms]) simp
  next
    case e: None
    show ?thesis
    proof (cases "props Object_prototype_obj k")
      case (Some p)
      with builtin_props_writable(1) obtain u where "p = Data u True" by blast
      with c e Some show ?thesis by (simp only: class_chain_find [OF assms]) simp
    next
      case None
      with c e show ?thesis by (simp only: class_chain_find [OF assms]) simp
    qed
  qed
qed

lemma settled_find_inherited:
  assumes "settled h C e" and "props (h ! e) k = None"
  obtains n where "length h = Suc (Suc (Suc (Suc n)))"
    and "find_prop (length h) h e k = find_prop (Suc (Suc (Suc n))) h (prototype C) k"
proof -
  from assms(1) obtain n where n: "length h = Suc (Suc (Suc (Suc n)))" by (rule settled_length)
  from assms have "find_prop (length h) h e k = find_prop (Suc (Suc (Suc n))) h (prototype C) k"
    unfolding n by (simp add: settled_def n object_prototype_def)
  with n show thesis by (rule that)
qed

lemma settled_find_inherited_result:
  assumes "settled h C e" and "props (h ! e) k = None"
  shows "(\<exists>u. find_prop (length h) h e k = Found u True)
       \<or> (find_prop (length h) h e k = Accessor \<and> k = ''__proto__'')
       \<or> (find_prop (length h) h e k = Absent \<and> k \<noteq> ''__proto__'')"
proof -
  from assms obtain n where
    f: "find_prop (length h) h e k = find_prop (Suc (Suc (Suc n))) h (prototype C) k"
    by (rule settled_find_inherited)
  from assms(1) have "realm h" "class_on h C" by (simp_all add: settled_def)
  from class_chain_result [OF this, of n k] show ?thesis unfolding f .
qed

lemma class_get_prop:
  assumes "realm h" and "class_on h C" and "length h = Suc (Suc (Suc n))"
    and "k \<noteq> ''__proto__''"
  shows "get_prop h (prototype C) k =
           (case find_prop (Suc (Suc (Suc n))) h (prototype C) k of
              Found v w \<Rightarrow> Some v | Absent \<Rightarrow> Some Undefined | _ \<Rightarrow> None)"
proof -
  note find_prop.simps [simp del]
  from class_chain_result [OF assms(1,2), of n k] assms(4) show ?thesis
    by (auto simp: get_prop_def assms(3))
qed

text \<open>
  A property the instance does not own reads as it does on the class's prototype: the
  lookup goes there next.
\<close>

lemma settled_get_inherited:
  assumes "settled h C e" and "props (h ! e) k = None" and "k \<noteq> ''__proto__''"
  shows "get_prop h e k = get_prop h (prototype C) k"
proof -
  from assms(1,2) obtain n where n: "length h = Suc (Suc (Suc (Suc n)))"
    and f: "find_prop (length h) h e k = find_prop (Suc (Suc (Suc n))) h (prototype C) k"
    by (rule settled_find_inherited)
  from assms(1) have r: "realm h" and c: "class_on h C" by (simp_all add: settled_def)
  have "find_prop (Suc (Suc (Suc (Suc n)))) h (prototype C) k
      = find_prop (Suc (Suc (Suc n))) h (prototype C) k"
    by (simp only: class_chain_find [OF r c])
  then have g: "get_prop h (prototype C) k =
      (case find_prop (Suc (Suc (Suc n))) h (prototype C) k of
         Found v w \<Rightarrow> Some v | Absent \<Rightarrow> Some Undefined | _ \<Rightarrow> None)"
    using class_get_prop [OF r c n assms(3)] by simp
  note find_prop.simps [simp del]
  from class_chain_result [OF r c, of n k] assms(3) show ?thesis
    unfolding g by (auto simp: get_prop_def f)
qed

text \<open>Reading off a class's prototype a key that neither it nor the built-ins hold.\<close>

lemma class_get_absent:
  assumes "realm h" and "class_on h C" and "k \<noteq> ''__proto__''"
    and "props (class_prototype_obj (prototype C)) k = None"
    and "props Error_prototype_obj k = None" and "props Object_prototype_obj k = None"
  shows "get_prop h (prototype C) k = Some Undefined"
proof -
  from assms(1,2) have "3 \<le> length h" by (simp add: realm_def class_on_def)
  then have n: "length h = Suc (Suc (Suc (length h - 3)))" by simp
  have "find_prop (Suc (Suc (Suc (length h - 3)))) h (prototype C) k = Absent"
    using assms(3-6) by (simp only: class_chain_find [OF assms(1,2)]) simp
  with class_get_prop [OF assms(1,2) n assms(3)] show ?thesis by simp
qed

lemma class_get_constructor:
  assumes "realm h" and "class_on h C"
  shows "get_prop h (prototype C) ''constructor'' = Some (Class (prototype C))"
proof -
  from assms(1,2) have "3 \<le> length h" by (simp add: realm_def class_on_def)
  then have n: "length h = Suc (Suc (Suc (length h - 3)))" by simp
  have "find_prop (Suc (Suc (Suc (length h - 3)))) h (prototype C) ''constructor''
      = Found (Class (prototype C)) True"
    by (simp only: class_chain_find [OF assms(1,2)]) (simp add: class_prototype_obj_def)
  with class_get_prop [OF assms(1,2) n, of "''constructor''"] show ?thesis by simp
qed


lemma settled_instance_of_class:
  assumes "settled h C e"
  shows "instance_of h e (prototype C) = Some True"
proof -
  from assms(1) obtain n where n: "length h = Suc (Suc (Suc (Suc n)))" by (rule settled_length)
  from assms show ?thesis by (simp add: instance_of_def settled_def n)
qed


lemma settled_not_instance_of:
  assumes "settled h C e" and "p \<noteq> prototype C" and "p \<noteq> error_prototype" and "p \<noteq> object_prototype"
  shows "instance_of h e p = Some False"
proof -
  from assms(1) obtain n where n: "length h = Suc (Suc (Suc (Suc n)))" by (rule settled_length)
  from assms show ?thesis
    by (simp add: instance_of_def settled_def n class_on_def class_prototype_obj_def realm_def
        error_prototype_def object_prototype_def Object_prototype_obj_def Error_prototype_obj_def)
qed

lemma set_prop_keeps_settled:
  assumes "set_prop h e k v = Inr h'" and "settled h C e" and "k \<noteq> ''__proto__''"
  shows "settled h' C e"
proof -
  from assms(2) have e: "e < length h" and ne: "0 \<noteq> e" "1 \<noteq> e" "prototype C \<noteq> e"
    by (auto simp: settled_def class_on_def)
  note f = set_prop_Inr [OF assms(1) e]
  from assms(2) f(1) f(2) [OF ne(1)] f(2) [OF ne(2)] f(2) [OF ne(3)] f(6) [OF assms(3)]
  show ?thesis
    by (simp add: settled_def realm_def class_on_def object_prototype_def error_prototype_def)
qed

lemma set_prop_settled:
  assumes "settled h C e" and "extensible (h ! e)" and "writable_all (h ! e)"
    and "k \<noteq> ''__proto__''"
  shows "\<exists>h'. set_prop h e k v = Inr h'"
proof (cases "props (h ! e) k")
  case None
  from settled_find_inherited_result [OF assms(1) None] assms(2,4) None show ?thesis
    by (auto simp: set_prop_def write_own_def)
next
  case (Some p)
  from assms(1) have e: "e < length h" by (simp add: settled_def)
  show ?thesis
  proof (cases p)
    case (Data u w)
    with Some assms(3) have w by (auto simp: writable_all_def)
    with e Some Data show ?thesis
      by (simp add: set_prop_def find_prop_own write_own_def)
  next
    case (HostStack u)
    with e Some show ?thesis by (simp add: set_prop_def find_prop_own_stack)
  qed
qed

lemma object_assign_total:
  assumes "settled h C e" and "extensible (h ! e)" and "writable_all (h ! e)"
    and "''__proto__'' \<notin> fst ` set m"
  shows "\<exists>h'. object_assign h e m = Inr h' \<and> settled h' C e"
  using assms
proof (induction m arbitrary: h)
  case Nil
  then show ?case by simp
next
  case (Cons kv m)
  obtain k v where kv: "kv = (k, v)" by (cases kv)
  with Cons.prems have k: "k \<noteq> ''__proto__''" by auto
  have e: "e < length h" using Cons.prems(1) by (simp add: settled_def)
  from set_prop_settled [OF Cons.prems(1,2,3) k] obtain h1 where
    s: "set_prop h e k v = Inr h1" by blast
  have "\<exists>h'. object_assign h1 e m = Inr h' \<and> settled h' C e"
  proof (rule Cons.IH)
    show "settled h1 C e" using s Cons.prems(1) k by (rule set_prop_keeps_settled)
    show "extensible (h1 ! e)" using set_prop_Inr(3) [OF s e] Cons.prems(2) by simp
    show "writable_all (h1 ! e)" using s e Cons.prems(3) by (rule set_prop_writable_all)
    show "''__proto__'' \<notin> fst ` set m" using Cons.prems(4) by simp
  qed
  with s kv show ?case by simp
qed

lemma construct_total:
  assumes "realm h" and "class_on h C" and "''__proto__'' \<notin> payload_keys args"
  shows "\<exists>h' e. construct h C (prototype C) tr args = Inr (h', e)"
proof -
  define h1 where
    "h1 = h @ [\<lparr>props = [''stack'' \<mapsto> HostStack (Str tr)], proto = Some (prototype C),
                extensible = True\<rparr>]"
  define h2 where "h2 = define_field h1 (length h) ''_tag'' (Str (tag C))"
  from assms(1,2) have l: "0 < length h" "1 < length h" "prototype C < length h"
    by (auto simp: realm_def class_on_def)
  have o2: "h2 ! length h =
      \<lparr>props = [''stack'' \<mapsto> HostStack (Str tr), ''_tag'' \<mapsto> Data (Str (tag C)) True],
       proto = Some (prototype C), extensible = True\<rparr>"
    by (simp add: h2_def h1_def define_field_same)
  have b2: "b < length h \<Longrightarrow> h2 ! b = h ! b" for b
    by (simp add: h2_def h1_def nth_append)
  have t2: "settled h2 C (length h)"
    using assms(1,2) l b2 [of 0] b2 [of 1] b2 [of "prototype C"] o2
    by (simp add: settled_def realm_def class_on_def object_prototype_def error_prototype_def
        h2_def h1_def)
  have e2: "extensible (h2 ! length h)" by (simp add: o2)
  have w2: "writable_all (h2 ! length h)"
    by (auto simp: o2 writable_all_def split: if_splits)
  have a2: "length h < length h2" by (simp add: h2_def h1_def)
  from set_prop_settled [OF t2 e2 w2, of "''name''" "Str (tag C)"] obtain h3 where
    s3: "set_prop h2 (length h) ''name'' (Str (tag C)) = Inr h3" by auto
  have t3: "settled h3 C (length h)" using s3 t2 by (rule set_prop_keeps_settled) simp
  have e3: "extensible (h3 ! length h)" using set_prop_Inr(3) [OF s3 a2] e2 by simp
  have w3: "writable_all (h3 ! length h)" using s3 a2 w2 by (rule set_prop_writable_all)
  have "\<exists>h4. (case args of None \<Rightarrow> Inr h3 | Some m \<Rightarrow> object_assign h3 (length h) m) = Inr h4
          \<and> settled h4 C (length h)"
  proof (cases args)
    case None
    with t3 show ?thesis by simp
  next
    case (Some m)
    with assms(3) have "''__proto__'' \<notin> fst ` set m" by (simp add: payload_keys_def)
    from object_assign_total [OF t3 e3 w3 this] Some show ?thesis by simp
  qed
  then obtain h4 where
    s4: "(case args of None \<Rightarrow> Inr h3 | Some m \<Rightarrow> object_assign h3 (length h) m) = Inr h4"
    and t4: "settled h4 C (length h)" by blast
  from t4 have s5: "set_prototype_of h4 (length h) (Some (prototype C)) = Inr h4"
    by (simp add: set_prototype_of_def settled_def)
  have "construct_fields h C (prototype C) tr args = Inr (h4, length h)"
    unfolding construct_fields_def Let_def
    using s3 s4 by (simp add: h1_def h2_def)
  with s5 have "construct h C (prototype C) tr args = Inr (h4, length h)"
    by (simp add: construct_def)
  then show ?thesis by blast
qed

section \<open>The factory, later calls and evaluation\<close>

lemmas eval_defs =
  frozen_point_def subclass_prototype_obj_def example_trace_def
  new_TaggedError_def result_get_def result_own_def result_assign_def
  construct_def construct_fields_def TaggedError_def realm0_def
  define_field_def store_stack_def set_prop_def write_own_def proto_setter_def
  set_prototype_of_def class_prototype_obj_def Object_prototype_obj_def
  Error_prototype_obj_def get_prop_def instance_of_def object_prototype_def
  error_prototype_def Let_def

lemma realm_realm0: "realm realm0"
  by (simp add: realm_def realm0_def object_prototype_def error_prototype_def)

lemma TaggedError_class:
  assumes "realm h" and "TaggedError h t = (h1, C)"
  shows "realm h1 \<and> class_on h1 C \<and> tag C = t \<and> prototype C = length h
           \<and> length h1 = Suc (length h)"
  using assms
  by (auto simp: TaggedError_def realm_def class_on_def nth_append object_prototype_def
      error_prototype_def)

lemma TaggedError_keeps_class:
  assumes "class_on h C" and "TaggedError h t = (h1, C1)"
  shows "class_on h1 C"
  using assms by (auto simp: TaggedError_def class_on_def nth_append)

lemma construct_keeps_realm:
  assumes "realm h" and "construct h C nt tr args = Inr (h', e)"
  shows "realm h'"
proof -
  from assms(1) have "0 < length h" "1 < length h" by (auto simp: realm_def)
  then have "h' ! 0 = h ! 0" "h' ! 1 = h ! 1"
    by (simp_all add: construct_Inr(3) [OF assms(2)])
  with assms(1) construct_Inr(2) [OF assms(2)] show ?thesis
    by (simp add: realm_def object_prototype_def error_prototype_def)
qed

lemma construct_keeps_class:
  assumes "class_on h C'" and "construct h C nt tr args = Inr (h', e)"
  shows "class_on h' C'"
  using assms construct_Inr(2) [OF assms(2)] construct_Inr(3) [OF assms(2), of "prototype C'"]
  by (simp add: class_on_def)

lemma construct_keeps_settled:
  assumes "settled h C' e'" and "construct h C nt tr args = Inr (h', e)"
  shows "settled h' C' e'"
proof -
  from assms(1) have "e' < length h" by (simp add: settled_def)
  then have "h' ! e' = h ! e'" by (rule construct_Inr(3) [OF assms(2)])
  with assms(1) construct_keeps_realm [OF _ assms(2)] construct_keeps_class [OF _ assms(2)]
    construct_Inr(2) [OF assms(2)]
  show ?thesis by (simp add: settled_def)
qed

lemma example_class:
  "realm example_heap \<and> class_on example_heap NetworkError \<and> tag NetworkError = ''NetworkError''"
  using TaggedError_class [OF realm_realm0, of "''NetworkError''" example_heap NetworkError]
  by (simp add: example_heap_def NetworkError_def)

section \<open>The claims\<close>




text \<open>
  C2 (as stated, refuted). The claim: reassigning a payload field or the discriminant
  fails or leaves the stored value unchanged. On the README's example the assignments
  \<^verbatim>\<open>e.status = 0\<close> and \<^verbatim>\<open>e._tag = "Other"\<close> succeed and the fields read back the new
  values.
\<close>

theorem assignment_replaces_field:
  "result_get (new_TaggedError realm0 ''NetworkError'' example_trace (Some network_payload))
     ''status'' = Some (Num 500)
   \<and> result_get (result_assign
        (new_TaggedError realm0 ''NetworkError'' example_trace (Some network_payload))
        ''status'' (Num 0)) ''status'' = Some (Num 0)
   \<and> result_get (result_assign
        (new_TaggedError realm0 ''NetworkError'' example_trace (Some network_payload))
        ''_tag'' (Str ''Other'')) ''_tag'' = Some (Str ''Other'')"
  by (simp add: eval_defs network_payload_def)

text \<open>
  C2 (amended). On every produced instance, assigning any value to the discriminant
  field or to a payload field (a payload key other than \<^verbatim>\<open>__proto__\<close>) succeeds, and
  the field then holds the assigned value.
\<close>

theorem fields_accept_assignment:
  assumes "construct h C nt tr args = Inr (h', e)"
    and "k = ''_tag'' \<or> (k \<in> payload_keys args \<and> k \<noteq> ''__proto__'')"
  shows "\<exists>h''. set_prop h' e k v = Inr h'' \<and> get_prop h'' e k = Some v"
proof -
  have e: "e < length h'" using construct_Inr(1,2) [OF assms(1)] by simp
  from construct_Inr(13) [OF assms(1), of k] assms(2) obtain p0
    where p0: "props (h' ! e) k = Some p0"
    by blast
  show ?thesis
  proof (cases p0)
    case (Data u w)
    with p0 construct_Inr(6) [OF assms(1)] have w by (auto simp: writable_all_def)
    with p0 Data e have s: "set_prop h' e k v = Inr (define_field h' e k v)"
      by (simp add: set_prop_def find_prop_own write_own_def)
    have "get_prop (define_field h' e k v) e k = Some v"
      by (rule get_prop_own [where w = True]) (simp_all add: e define_field_same)
    with s show ?thesis by simp
  next
    case (HostStack u)
    with p0 e have s: "set_prop h' e k v = Inr (store_stack h' e k v)"
      by (simp add: set_prop_def find_prop_own_stack)
    have "get_prop (store_stack h' e k v) e k = Some v"
      by (rule get_prop_own_stack) (simp_all add: e store_stack_same)
    with s show ?thesis by simp
  qed
qed

theorem fields_accept_assignment_witness:
  "\<exists>h' e. construct example_heap NetworkError (prototype NetworkError) example_trace
              (Some network_payload) = Inr (h', e)
     \<and> ''status'' \<in> payload_keys (Some network_payload)
     \<and> (\<exists>h''. set_prop h' e ''status'' (Num 0) = Inr h''
           \<and> get_prop h'' e ''status'' = Some (Num 0))
     \<and> (\<exists>h''. set_prop h' e ''_tag'' (Str ''Other'') = Inr h''
           \<and> get_prop h'' e ''_tag'' = Some (Str ''Other''))"
proof -
  have k: "''__proto__'' \<notin> payload_keys (Some network_payload)"
    and s: "''status'' \<in> payload_keys (Some network_payload)"
    by (simp_all add: payload_keys_def network_payload_def)
  note r = example_class [THEN conjunct1] and cl = example_class [THEN conjunct2, THEN conjunct1]
  have "\<exists>h' e. construct example_heap NetworkError (prototype NetworkError) example_trace
      (Some network_payload) = Inr (h', e)"
    using r cl k by (rule construct_total)
  then obtain h' e where
    c: "construct example_heap NetworkError (prototype NetworkError) example_trace
          (Some network_payload) = Inr (h', e)"
    by blast
  from fields_accept_assignment [OF c, of "''status''" "Num 0"]
    fields_accept_assignment [OF c, of "''_tag''" "Str ''Other''"] c s
  show ?thesis by auto
qed

text \<open>
  C3 (as stated, refuted). The claim: for every key \<open>k\<close> of the payload the instance
  exposes a field \<open>k\<close> equal to the payload's value. For the key \<^verbatim>\<open>__proto__\<close> the
  assignment of \<^verbatim>\<open>Object.assign\<close> reaches the inherited setter, which ignores the
  number 5: the instance has no own field of that name, and reading \<^verbatim>\<open>__proto__\<close>
  gives the class's prototype object.
\<close>

theorem proto_key_not_stored:
  "result_own (new_TaggedError realm0 ''A'' example_trace (Some [(''__proto__'', Num 5)]))
     ''__proto__'' = None
   \<and> result_get (new_TaggedError realm0 ''A'' example_trace (Some [(''__proto__'', Num 5)]))
       ''__proto__'' = Some (Ref 2)"
  by (simp add: eval_defs)

text \<open>
  C3 (amended). For a class in place and a payload \<open>m\<close> of distinct keys: when \<open>m\<close> has
  no key \<^verbatim>\<open>__proto__\<close>, constructing the class directly returns an instance; and
  whenever a constructor call returns an instance, every key of \<open>m\<close> other than
  \<^verbatim>\<open>__proto__\<close> is an own field that reads as the payload's value itself (a reference
  stays the same reference): a writable data property, or the host's accessor for the
  key \<^verbatim>\<open>stack\<close>. The own fields are among \<^verbatim>\<open>_tag\<close>, \<^verbatim>\<open>name\<close>, \<^verbatim>\<open>stack\<close> and the keys of
  \<open>m\<close>, and the heap has grown by the instance alone, every earlier object unchanged.
\<close>

theorem payload_fields:
  assumes "realm h" and "class_on h C" and "distinct (map fst m)"
  shows "(''__proto__'' \<notin> fst ` set m \<longrightarrow>
            (\<exists>h' e. construct h C (prototype C) tr (Some m) = Inr (h', e)))
       \<and> (\<forall>nt h' e. construct h C nt tr (Some m) = Inr (h', e) \<longrightarrow>
            (\<forall>(k, v) \<in> set m. k \<noteq> ''__proto__'' \<longrightarrow>
               get_prop h' e k = Some v
               \<and> props (h' ! e) k = Some (if k = ''stack'' then HostStack v else Data v True))
            \<and> dom (props (h' ! e)) \<subseteq> {''_tag'', ''name'', ''stack''} \<union> fst ` set m
            \<and> length h' = Suc (length h) \<and> (\<forall>b<length h. h' ! b = h ! b))"
proof (intro conjI impI allI)
  assume "''__proto__'' \<notin> fst ` set m"
  then have "''__proto__'' \<notin> payload_keys (Some m)" by (simp add: payload_keys_def)
  with assms(1,2) show "\<exists>h' e. construct h C (prototype C) tr (Some m) = Inr (h', e)"
    by (rule construct_total)
next
  fix nt h' e
  assume c: "construct h C nt tr (Some m) = Inr (h', e)"
  have e: "e < length h'" using construct_Inr(1,2) [OF c] by simp
  show "\<forall>(k, v) \<in> set m. k \<noteq> ''__proto__'' \<longrightarrow>
          get_prop h' e k = Some v
          \<and> props (h' ! e) k = Some (if k = ''stack'' then HostStack v else Data v True)"
    using construct_Inr(10) [OF c refl assms(3)]
    by (auto simp: get_prop_own [OF e] get_prop_own_stack [OF e])
  show "dom (props (h' ! e)) \<subseteq> {''_tag'', ''name'', ''stack''} \<union> fst ` set m"
  proof
    fix k assume "k \<in> dom (props (h' ! e))"
    then have "props (h' ! e) k \<noteq> None" by auto
    with construct_Inr(7) [OF c, of k]
    show "k \<in> {''_tag'', ''name'', ''stack''} \<union> fst ` set m"
      by (auto simp: payload_keys_def)
  qed
  show "length h' = Suc (length h)" by (rule construct_Inr(2) [OF c])
  show "b < length h \<Longrightarrow> h' ! b = h ! b" for b by (rule construct_Inr(3) [OF c])
qed

theorem payload_fields_witness:
  "realm example_heap \<and> class_on example_heap NetworkError
   \<and> distinct (map fst ((''stack'', Str ''custom'') # network_payload))
   \<and> ''__proto__'' \<notin> fst ` set ((''stack'', Str ''custom'') # network_payload)
   \<and> (\<exists>h' e. construct example_heap NetworkError (prototype NetworkError) example_trace
                (Some ((''stack'', Str ''custom'') # network_payload)) = Inr (h', e)
        \<and> get_prop h' e ''status'' = Some (Num 500)
        \<and> get_prop h' e ''endpoint'' = Some (Str ''/api/users'')
        \<and> props (h' ! e) ''endpoint'' = Some (Data (Str ''/api/users'') True)
        \<and> get_prop h' e ''stack'' = Some (Str ''custom'')
        \<and> props (h' ! e) ''stack'' = Some (HostStack (Str ''custom''))
        \<and> dom (props (h' ! e)) \<subseteq> {''_tag'', ''name'', ''stack'', ''status'', ''endpoint''}
        \<and> length h' = Suc (length example_heap))"
proof -
  let ?m = "(''stack'', Str ''custom'') # network_payload"
  have d: "distinct (map fst ?m)"
    and k: "''__proto__'' \<notin> fst ` set ?m"
    by (simp_all add: network_payload_def)
  note r = example_class [THEN conjunct1] and cl = example_class [THEN conjunct2, THEN conjunct1]
  note t = payload_fields [OF r cl d, of example_trace]
  from t [THEN conjunct1] k have "\<exists>h' e. construct example_heap NetworkError
      (prototype NetworkError) example_trace (Some ?m) = Inr (h', e)"
    by (rule mp)
  then obtain h' e where
    c: "construct example_heap NetworkError (prototype NetworkError) example_trace (Some ?m)
          = Inr (h', e)"
    by blast
  note u = t [THEN conjunct2, rule_format, OF c]
  note f = u [THEN conjunct1] and g = u [THEN conjunct2, THEN conjunct1]
    and l = u [THEN conjunct2, THEN conjunct2, THEN conjunct1]
  have m1: "(''status'', Num 500) \<in> set ?m" and m2: "(''endpoint'', Str ''/api/users'') \<in> set ?m"
    and m3: "(''stack'', Str ''custom'') \<in> set ?m"
    by (simp_all add: network_payload_def)
  have "get_prop h' e ''status'' = Some (Num 500)"
    using bspec [OF f m1] by simp
  moreover have "get_prop h' e ''endpoint'' = Some (Str ''/api/users'')
      \<and> props (h' ! e) ''endpoint'' = Some (Data (Str ''/api/users'') True)"
    using bspec [OF f m2] by simp
  moreover have "get_prop h' e ''stack'' = Some (Str ''custom'')
      \<and> props (h' ! e) ''stack'' = Some (HostStack (Str ''custom''))"
    using bspec [OF f m3] by simp
  moreover have "dom (props (h' ! e)) \<subseteq> {''_tag'', ''name'', ''stack'', ''status'', ''endpoint''}"
  proof -
    have "{''_tag'', ''name'', ''stack''} \<union> fst ` set ?m
        = {''_tag'', ''name'', ''stack'', ''status'', ''endpoint''}"
      by (auto simp: network_payload_def)
    with g show ?thesis by simp
  qed
  ultimately show ?thesis using c d k r cl l by (intro conjI exI [of _ h'] exI [of _ e]) simp_all
qed

text \<open>
  C4. For every label \<open>L\<close>: the class the factory returns for \<open>L\<close>, constructed with no
  payload in any later heap that still holds it, gives an instance whose discriminant
  and whose \<^verbatim>\<open>name\<close> both equal \<open>L\<close>, and whose own fields are these two and the
  \<^verbatim>\<open>stack\<close> every error of the host carries, and no other.
\<close>

theorem no_payload_instance:
  assumes "TaggedError h0 L = (h1, C)" and "realm h" and "class_on h C"
  shows "\<exists>h' e. construct h C (prototype C) tr None = Inr (h', e)
           \<and> get_prop h' e ''_tag'' = Some (Str L)
           \<and> get_prop h' e ''name'' = Some (Str L)
           \<and> dom (props (h' ! e)) = {''_tag'', ''name'', ''stack''}"
proof -
  from assms(1) have L: "tag C = L" by (auto simp: TaggedError_def)
  have "''__proto__'' \<notin> payload_keys None" by (simp add: payload_keys_def)
  with assms(2,3) have "\<exists>h' e. construct h C (prototype C) tr None = Inr (h', e)"
    by (rule construct_total)
  then obtain h' e where c: "construct h C (prototype C) tr None = Inr (h', e)" by blast
  have e: "e < length h'" using construct_Inr(1,2) [OF c] by simp
  have t: "props (h' ! e) ''_tag'' = Some (Data (Str L) True)"
    and n: "props (h' ! e) ''name'' = Some (Data (Str L) True)"
    and s: "props (h' ! e) ''stack'' = Some (HostStack (Str tr))"
    using construct_Inr(8,9,11) [OF c] L by (simp_all add: payload_keys_def)
  have d: "dom (props (h' ! e)) = {''_tag'', ''name'', ''stack''}"
  proof
    show "dom (props (h' ! e)) \<subseteq> {''_tag'', ''name'', ''stack''}"
    proof
      fix k assume "k \<in> dom (props (h' ! e))"
      then have "props (h' ! e) k \<noteq> None" by auto
      with construct_Inr(7) [OF c, of k] show "k \<in> {''_tag'', ''name'', ''stack''}"
        by (auto simp: payload_keys_def)
    qed
    show "{''_tag'', ''name'', ''stack''} \<subseteq> dom (props (h' ! e))" using t n s by auto
  qed
  have "get_prop h' e ''_tag'' = Some (Str L)" using e t by (rule get_prop_own)
  moreover have "get_prop h' e ''name'' = Some (Str L)" using e n by (rule get_prop_own)
  ultimately show ?thesis using c d by blast
qed

theorem no_payload_instance_witness:
  "realm realm0
   \<and> (\<exists>h' e. new_TaggedError realm0 ''InvalidEndpoint'' example_trace None = Inr (h', e)
        \<and> get_prop h' e ''_tag'' = Some (Str ''InvalidEndpoint'')
        \<and> get_prop h' e ''name'' = Some (Str ''InvalidEndpoint'')
        \<and> dom (props (h' ! e)) = {''_tag'', ''name'', ''stack''})
   \<and> (\<exists>h' e. new_TaggedError realm0 ''A'' example_trace None = Inr (h', e)
        \<and> get_prop h' e ''_tag'' = Some (Str ''A'')
        \<and> get_prop h' e ''name'' = Some (Str ''A'')
        \<and> dom (props (h' ! e)) = {''_tag'', ''name'', ''stack''})"
proof -
  have w: "\<exists>h' e. new_TaggedError realm0 L example_trace None = Inr (h', e)
        \<and> get_prop h' e ''_tag'' = Some (Str L)
        \<and> get_prop h' e ''name'' = Some (Str L)
        \<and> dom (props (h' ! e)) = {''_tag'', ''name'', ''stack''}" for L
  proof -
    obtain h1 C where f: "TaggedError realm0 L = (h1, C)"
      by (cases "TaggedError realm0 L")
    from TaggedError_class [OF realm_realm0 f]
    have r: "realm h1" and c: "class_on h1 C" by simp_all
    have n: "new_TaggedError realm0 L example_trace None
        = construct h1 C (prototype C) example_trace None"
      by (simp add: new_TaggedError_def f)
    from no_payload_instance [OF f r c, of example_trace] show ?thesis
      unfolding n .
  qed
  from w [of "''InvalidEndpoint''"] w [of "''A''"] realm_realm0 show ?thesis by blast
qed

text \<open>
  C5. A payload key named \<^verbatim>\<open>name\<close>, \<^verbatim>\<open>message\<close> or \<^verbatim>\<open>_tag\<close> is not rejected: a
  payload without the key \<^verbatim>\<open>__proto__\<close> always constructs, and on every instance a
  constructor call returns the field of that name holds the payload's value, in place
  of the label or of the inherited empty message.
\<close>

theorem colliding_key_overwrites:
  assumes "realm h" and "class_on h C" and "distinct (map fst m)" and "(k, v) \<in> set m"
    and "k = ''name'' \<or> k = ''message'' \<or> k = ''_tag''"
  shows "(''__proto__'' \<notin> fst ` set m \<longrightarrow>
            (\<exists>h' e. construct h C (prototype C) tr (Some m) = Inr (h', e)))
       \<and> (\<forall>nt h' e. construct h C nt tr (Some m) = Inr (h', e) \<longrightarrow>
            props (h' ! e) k = Some (Data v True) \<and> get_prop h' e k = Some v)"
proof (intro conjI impI allI)
  assume "''__proto__'' \<notin> fst ` set m"
  then have "''__proto__'' \<notin> payload_keys (Some m)" by (simp add: payload_keys_def)
  with assms(1,2) show "\<exists>h' e. construct h C (prototype C) tr (Some m) = Inr (h', e)"
    by (rule construct_total)
next
  fix nt h' e
  assume c: "construct h C nt tr (Some m) = Inr (h', e)"
  have e: "e < length h'" using construct_Inr(1,2) [OF c] by simp
  from assms(5) have "k \<noteq> ''__proto__''" and "k \<noteq> ''stack''" by auto
  with construct_Inr(10) [OF c refl assms(3,4)]
  show p: "props (h' ! e) k = Some (Data v True)" by simp
  from e p show "get_prop h' e k = Some v" by (rule get_prop_own)
qed

theorem colliding_key_overwrites_witness:
  "realm example_heap \<and> class_on example_heap NetworkError
   \<and> distinct (map fst [(''message'', Str ''boom''), (''name'', Str ''Custom''), (''_tag'', Num 7)])
   \<and> (\<exists>h' e. construct example_heap NetworkError (prototype NetworkError) example_trace
                (Some [(''message'', Str ''boom''), (''name'', Str ''Custom''), (''_tag'', Num 7)])
              = Inr (h', e)
        \<and> get_prop h' e ''message'' = Some (Str ''boom'')
        \<and> get_prop h' e ''name'' = Some (Str ''Custom'')
        \<and> get_prop h' e ''_tag'' = Some (Num 7))"
proof -
  let ?m = "[(''message'', Str ''boom''), (''name'', Str ''Custom''), (''_tag'', Num 7)]"
  have d: "distinct (map fst ?m)" and k: "''__proto__'' \<notin> fst ` set ?m" by simp_all
  note r = example_class [THEN conjunct1] and cl = example_class [THEN conjunct2, THEN conjunct1]
  have m1: "(''message'', Str ''boom'') \<in> set ?m" and m2: "(''name'', Str ''Custom'') \<in> set ?m"
    and m3: "(''_tag'', Num 7) \<in> set ?m" by simp_all
  note t1 = colliding_key_overwrites [OF r cl d m1, of example_trace]
    and t2 = colliding_key_overwrites [OF r cl d m2, of example_trace]
    and t3 = colliding_key_overwrites [OF r cl d m3, of example_trace]
  from t1 k obtain h' e where
    c: "construct example_heap NetworkError (prototype NetworkError) example_trace (Some ?m)
          = Inr (h', e)"
    by auto
  have "get_prop h' e ''message'' = Some (Str ''boom'')" using t1 c by simp
  moreover have "get_prop h' e ''name'' = Some (Str ''Custom'')" using t2 c by simp
  moreover have "get_prop h' e ''_tag'' = Some (Num 7)" using t3 c by simp
  ultimately show ?thesis using c d r cl by (intro conjI exI [of _ h'] exI [of _ e]) simp_all
qed




text \<open>
  C7 (as stated, refuted). The claim: of two classes made from the same label \<open>L\<close>,
  both values report the discriminant \<open>L\<close>. After a first call of the factory with the
  label \<^verbatim>\<open>"A"\<close>, the class of a second call with \<^verbatim>\<open>"A"\<close>, constructed with the payload
  \<^verbatim>\<open>{_tag: "B"}\<close>, gives a value whose discriminant reads \<^verbatim>\<open>"B"\<close>.
\<close>

theorem same_label_other_discriminant:
  "result_get (new_TaggedError (fst (TaggedError realm0 ''A'')) ''A'' example_trace
      (Some [(''_tag'', Str ''B'')])) ''_tag'' = Some (Str ''B'')"
  by (simp add: eval_defs)

text \<open>
  C7 (amended). Two calls of the factory with the same label give two classes with
  different prototype objects. An instance built by one of them, directly or through
  a subclass and with any payload, passes \<^verbatim>\<open>instanceof\<close> against its own class and
  fails it against the other; each of the two instances reads \<^verbatim>\<open>_tag\<close> as the label
  when its payload has no key \<^verbatim>\<open>_tag\<close>.
\<close>

theorem same_label_classes_are_distinct:
  assumes "realm h" and "TaggedError h L = (h1, C1)" and "TaggedError h1 L = (h2, C2)"
    and "construct h2 C1 nt1 tr1 args1 = Inr (h3, e1)"
    and "construct h3 C2 nt2 tr2 args2 = Inr (h4, e2)"
  shows "prototype C1 \<noteq> prototype C2
       \<and> instance_of h4 e1 (prototype C1) = Some True
       \<and> instance_of h4 e1 (prototype C2) = Some False
       \<and> instance_of h4 e2 (prototype C2) = Some True
       \<and> instance_of h4 e2 (prototype C1) = Some False
       \<and> (''_tag'' \<notin> payload_keys args1 \<longrightarrow> get_prop h4 e1 ''_tag'' = Some (Str L))
       \<and> (''_tag'' \<notin> payload_keys args2 \<longrightarrow> get_prop h4 e2 ''_tag'' = Some (Str L))"
proof -
  note f1 = TaggedError_class [OF assms(1,2)]
  then have r1: "realm h1" and c1: "class_on h1 C1" and t1: "tag C1 = L"
    and p1: "prototype C1 = length h" and l1: "length h1 = Suc (length h)" by simp_all
  note f2 = TaggedError_class [OF r1 assms(3)]
  then have r2: "realm h2" and c2: "class_on h2 C2" and t2: "tag C2 = L"
    and p2: "prototype C2 = length h1" by simp_all
  have c12: "class_on h2 C1" using c1 assms(3) by (rule TaggedError_keeps_class)
  have ne: "prototype C1 \<noteq> prototype C2" using p1 p2 l1 by simp
  have s31: "settled h3 C1 e1" using r2 c12 assms(4) by (rule construct_settled)
  have s1: "settled h4 C1 e1" using s31 assms(5) by (rule construct_keeps_settled)
  have r3: "realm h3" using r2 assms(4) by (rule construct_keeps_realm)
  have c32: "class_on h3 C2" using c2 assms(4) by (rule construct_keeps_class)
  have s2: "settled h4 C2 e2" using r3 c32 assms(5) by (rule construct_settled)
  have b1: "prototype C1 \<noteq> error_prototype" "prototype C1 \<noteq> object_prototype"
    and b2: "prototype C2 \<noteq> error_prototype" "prototype C2 \<noteq> object_prototype"
    using c1 c2 by (auto simp: class_on_def error_prototype_def object_prototype_def)
  have i1: "instance_of h4 e1 (prototype C2) = Some False"
    using s1 ne [symmetric] b2 by (rule settled_not_instance_of)
  have i2: "instance_of h4 e2 (prototype C1) = Some False"
    using s2 ne b1 by (rule settled_not_instance_of)
  have e1: "e1 < length h3" and e1': "e1 < length h4" and e2: "e2 < length h4"
    using construct_Inr(1,2) [OF assms(4)] construct_Inr(1,2) [OF assms(5)] by simp_all
  have same: "h4 ! e1 = h3 ! e1" using e1 by (rule construct_Inr(3) [OF assms(5)])
  have g1: "get_prop h4 e1 ''_tag'' = Some (Str L)" if "''_tag'' \<notin> payload_keys args1"
    using construct_Inr(8) [OF assms(4) that] same t1 by (simp add: get_prop_own [OF e1'])
  have g2: "get_prop h4 e2 ''_tag'' = Some (Str L)" if "''_tag'' \<notin> payload_keys args2"
    using construct_Inr(8) [OF assms(5) that] t2 by (simp add: get_prop_own [OF e2])
  from ne settled_instance_of_class [OF s1] i1 settled_instance_of_class [OF s2] i2 g1 g2
  show ?thesis by blast
qed

theorem same_label_classes_are_distinct_witness:
  "realm realm0
   \<and> (\<exists>h1 C1 h2 C2 h3 e1 h4 e2.
        TaggedError realm0 ''A'' = (h1, C1) \<and> TaggedError h1 ''A'' = (h2, C2)
        \<and> construct h2 C1 (prototype C1) example_trace None = Inr (h3, e1)
        \<and> construct h3 C2 (prototype C2) example_trace (Some network_payload) = Inr (h4, e2)
        \<and> ''_tag'' \<notin> payload_keys None \<and> ''_tag'' \<notin> payload_keys (Some network_payload)
        \<and> prototype C1 \<noteq> prototype C2
        \<and> instance_of h4 e1 (prototype C1) = Some True
        \<and> instance_of h4 e1 (prototype C2) = Some False
        \<and> instance_of h4 e2 (prototype C2) = Some True
        \<and> instance_of h4 e2 (prototype C1) = Some False
        \<and> get_prop h4 e1 ''_tag'' = Some (Str ''A'')
        \<and> get_prop h4 e2 ''_tag'' = Some (Str ''A''))"
proof -
  obtain h1 C1 where f1: "TaggedError realm0 ''A'' = (h1, C1)"
    by (cases "TaggedError realm0 ''A''")
  obtain h2 C2 where f2: "TaggedError h1 ''A'' = (h2, C2)"
    by (cases "TaggedError h1 ''A''")
  from TaggedError_class [OF realm_realm0 f1] have r1: "realm h1" and c1: "class_on h1 C1"
    by simp_all
  from TaggedError_class [OF r1 f2] have r2: "realm h2" and c2: "class_on h2 C2" by simp_all
  have c12: "class_on h2 C1" using c1 f2 by (rule TaggedError_keeps_class)
  have k1: "''__proto__'' \<notin> payload_keys None"
    and k2: "''__proto__'' \<notin> payload_keys (Some network_payload)"
    and n1: "''_tag'' \<notin> payload_keys None"
    and n2: "''_tag'' \<notin> payload_keys (Some network_payload)"
    by (simp_all add: payload_keys_def network_payload_def)
  have "\<exists>h3 e1. construct h2 C1 (prototype C1) example_trace None = Inr (h3, e1)"
    using r2 c12 k1 by (rule construct_total)
  then obtain h3 e1 where
    s1: "construct h2 C1 (prototype C1) example_trace None = Inr (h3, e1)" by blast
  have r3: "realm h3" using r2 s1 by (rule construct_keeps_realm)
  have c32: "class_on h3 C2" using c2 s1 by (rule construct_keeps_class)
  have "\<exists>h4 e2. construct h3 C2 (prototype C2) example_trace (Some network_payload)
      = Inr (h4, e2)"
    using r3 c32 k2 by (rule construct_total)
  then obtain h4 e2 where
    s2: "construct h3 C2 (prototype C2) example_trace (Some network_payload) = Inr (h4, e2)"
    by blast
  note t = same_label_classes_are_distinct [OF realm_realm0 f1 f2 s1 s2]
  have "prototype C1 \<noteq> prototype C2
       \<and> instance_of h4 e1 (prototype C1) = Some True
       \<and> instance_of h4 e1 (prototype C2) = Some False
       \<and> instance_of h4 e2 (prototype C2) = Some True
       \<and> instance_of h4 e2 (prototype C1) = Some False
       \<and> get_prop h4 e1 ''_tag'' = Some (Str ''A'')
       \<and> get_prop h4 e2 ''_tag'' = Some (Str ''A'')"
    using t n1 n2 by simp
  with f1 f2 s1 s2 n1 n2 realm_realm0 show ?thesis
    by (intro conjI exI [of _ h1] exI [of _ C1] exI [of _ h2] exI [of _ C2] exI [of _ h3]
        exI [of _ e1] exI [of _ h4] exI [of _ e2]) simp_all
qed

text \<open>
  C8 (as stated, refuted). The claim: the constructor succeeds for any payload. The
  payload \<^verbatim>\<open>{["__proto__"]: Object.freeze({x: 0}), x: 1}\<close> re-parents the instance to
  the frozen object while the copy runs, the assignment of \<^verbatim>\<open>x\<close> then meets the
  inherited read-only \<^verbatim>\<open>x\<close>, and \<^verbatim>\<open>Object.assign\<close> throws a \<^verbatim>\<open>TypeError\<close>.
\<close>

theorem proto_key_makes_constructor_throw:
  "new_TaggedError (realm0 @ [frozen_point]) ''A'' example_trace
      (Some [(''__proto__'', Ref 2), (''x'', Num 1)])
     = Inl TypeError"
  by (simp add: eval_defs)

text \<open>
  C8 (amended). In every heap with the realm in place the factory returns a class
  for any label, and constructing a class directly, with no payload or with a
  payload that has no key \<^verbatim>\<open>__proto__\<close>, returns an instance: no step throws and
  every walk along the prototype chain ends.
\<close>

theorem construction_succeeds:
  assumes "realm h" and "''__proto__'' \<notin> payload_keys args"
  shows "class_on (fst (TaggedError h L)) (snd (TaggedError h L))
       \<and> (\<exists>h' e. new_TaggedError h L tr args = Inr (h', e))
       \<and> (\<forall>C. class_on h C \<longrightarrow> (\<exists>h' e. construct h C (prototype C) tr args = Inr (h', e)))"
proof -
  obtain h1 C1 where f: "TaggedError h L = (h1, C1)" by (cases "TaggedError h L")
  from TaggedError_class [OF assms(1) f] have r1: "realm h1" and c1: "class_on h1 C1"
    by simp_all
  have "\<exists>h' e. construct h1 C1 (prototype C1) tr args = Inr (h', e)"
    using r1 c1 assms(2) by (rule construct_total)
  then have "\<exists>h' e. new_TaggedError h L tr args = Inr (h', e)"
    by (simp add: new_TaggedError_def f)
  moreover have "\<exists>h' e. construct h C (prototype C) tr args = Inr (h', e)" if "class_on h C" for C
    using assms(1) that assms(2) by (rule construct_total)
  ultimately show ?thesis using c1 f by simp
qed

theorem construction_succeeds_witness:
  "realm (realm0 @ [frozen_point])
   \<and> ''__proto__'' \<notin> payload_keys (Some [(''x'', Num 1), (''point'', Ref 2)])
   \<and> (\<exists>h' e. new_TaggedError (realm0 @ [frozen_point]) ''A'' example_trace
                (Some [(''x'', Num 1), (''point'', Ref 2)]) = Inr (h', e))"
proof -
  have r: "realm (realm0 @ [frozen_point])"
    by (simp add: realm_def realm0_def object_prototype_def error_prototype_def)
  have k: "''__proto__'' \<notin> payload_keys (Some [(''x'', Num 1), (''point'', Ref 2)])"
    by (simp add: payload_keys_def)
  from construction_succeeds [OF r k, of "''A''" example_trace] r k show ?thesis by simp
qed



text \<open>
  C10. Constructing through a subclass, whose prototype \<open>s\<close> inherits from the
  class's prototype: the statements before the last leave an instance that (unless
  the payload has a key \<^verbatim>\<open>__proto__\<close>) inherits from \<open>s\<close> and is an instance of the
  subclass and of the class; the last statement re-parents exactly this instance to
  the class's own prototype. The result fails \<^verbatim>\<open>instanceof\<close> against the subclass
  and passes it against the class; a property it does not own reads as it does on the
  class's prototype, so a member that only the subclass's prototype holds reads as
  \<^verbatim>\<open>undefined\<close>. The subclass's prototype itself is unchanged.
\<close>

theorem subclass_instance_is_reparented:
  assumes "realm h" and "class_on h C"
    and "s < length h" and "proto (h ! s) = Some (prototype C)"
    and "s \<noteq> prototype C" and "s \<noteq> error_prototype" and "s \<noteq> object_prototype"
    and "construct h C s tr args = Inr (h', e)"
  shows "(\<exists>h4. construct_fields h C s tr args = Inr (h4, e)
            \<and> h' = h4[e := (h4 ! e)\<lparr>proto := Some (prototype C)\<rparr>]
            \<and> (''__proto__'' \<notin> payload_keys args \<longrightarrow>
                 proto (h4 ! e) = Some s
                 \<and> instance_of h4 e s = Some True
                 \<and> instance_of h4 e (prototype C) = Some True))
       \<and> proto (h' ! e) = Some (prototype C)
       \<and> instance_of h' e s = Some False
       \<and> instance_of h' e (prototype C) = Some True
       \<and> (\<forall>k. props (h' ! e) k = None \<and> k \<noteq> ''__proto__'' \<longrightarrow>
            get_prop h' e k = get_prop h' (prototype C) k)
       \<and> (\<forall>k. props (h ! s) k \<noteq> None \<and> props (h' ! e) k = None \<and> k \<noteq> ''__proto__''
              \<and> props (class_prototype_obj (prototype C)) k = None
              \<and> props Error_prototype_obj k = None \<and> props Object_prototype_obj k = None \<longrightarrow>
            get_prop h' e k = Some Undefined)
       \<and> h' ! s = h ! s"
proof -
  from assms(8) obtain h4 where f: "construct_fields h C s tr args = Inr (h4, e)"
    and p: "set_prototype_of h4 e (Some (prototype C)) = Inr h'"
    by (rule construct_split)
  note g = construct_fields_Inr [OF f]
  have e4: "e < length h4" and l4: "length h4 = Suc (length h)" using g(1,2) by simp_all
  have s4: "h4 ! s = h ! s" using assms(3) by (rule g(3))
  have before: "proto (h4 ! e) = Some s \<and> instance_of h4 e s = Some True
      \<and> instance_of h4 e (prototype C) = Some True"
    if "''__proto__'' \<notin> payload_keys args"
  proof -
    have q: "proto (h4 ! e) = Some s" using that by (rule g(4))
    from assms(3) obtain n where "length h = Suc n" by (cases "length h") auto
    with l4 have n: "length h4 = Suc (Suc n)" and s': "s < Suc (Suc n)"
      using assms(3) by simp_all
    have "instance_of h4 e s = Some True"
      using e4 q by (simp add: instance_of_def n)
    moreover have "proto (h4 ! s) = Some (prototype C)" using s4 assms(4) by simp
    then have "instance_of h4 e (prototype C) = Some True"
      using e4 q assms(5) s' by (simp add: instance_of_def n)
    ultimately show ?thesis using q by simp
  qed
  have t: "settled h' C e" using assms(1,2,8) by (rule construct_settled)
  have r': "realm h'" and c': "class_on h' C" using t by (simp_all add: settled_def)
  have after: "instance_of h' e s = Some False"
    using t assms(5,6,7) by (rule settled_not_instance_of)
  have same: "h' ! s = h ! s" using assms(3) by (rule construct_Inr(3) [OF assms(8)])
  have reads: "get_prop h' e k = get_prop h' (prototype C) k"
    if "props (h' ! e) k = None" "k \<noteq> ''__proto__''" for k
    using t that by (rule settled_get_inherited)
  have member: "get_prop h' e k = Some Undefined"
    if "props (h' ! e) k = None" "k \<noteq> ''__proto__''"
      "props (class_prototype_obj (prototype C)) k = None"
      "props Error_prototype_obj k = None" "props Object_prototype_obj k = None" for k
    using reads [OF that(1,2)] class_get_absent [OF r' c' that(2,3,4,5)] by simp
  from f set_prototype_of_Inr(7) [OF p] before
  have first: "\<exists>h4. construct_fields h C s tr args = Inr (h4, e)
            \<and> h' = h4[e := (h4 ! e)\<lparr>proto := Some (prototype C)\<rparr>]
            \<and> (''__proto__'' \<notin> payload_keys args \<longrightarrow>
                 proto (h4 ! e) = Some s
                 \<and> instance_of h4 e s = Some True
                 \<and> instance_of h4 e (prototype C) = Some True)"
    by blast
  show ?thesis
    using first construct_Inr(4) [OF assms(8)] after settled_instance_of_class [OF t]
      reads member same
    by (intro conjI allI impI) simp_all
qed

theorem subclass_instance_is_reparented_witness:
  "realm (example_heap @ [subclass_prototype_obj 3 2])
   \<and> class_on (example_heap @ [subclass_prototype_obj 3 2]) NetworkError
   \<and> prototype NetworkError = 2
   \<and> proto ((example_heap @ [subclass_prototype_obj 3 2]) ! 3) = Some 2
   \<and> ''__proto__'' \<notin> payload_keys (Some network_payload)
   \<and> result_get (construct_fields (example_heap @ [subclass_prototype_obj 3 2]) NetworkError 3
        example_trace (Some network_payload)) ''describe''
       = Some (Fn ''Sub.prototype.describe'')
   \<and> (\<exists>h4 h' e.
        construct_fields (example_heap @ [subclass_prototype_obj 3 2]) NetworkError 3
          example_trace (Some network_payload) = Inr (h4, e)
        \<and> construct (example_heap @ [subclass_prototype_obj 3 2]) NetworkError 3
          example_trace (Some network_payload) = Inr (h', e)
        \<and> proto (h4 ! e) = Some 3
        \<and> instance_of h4 e 3 = Some True
        \<and> proto (h' ! e) = Some 2
        \<and> instance_of h' e 3 = Some False
        \<and> instance_of h' e 2 = Some True
        \<and> props (h' ! 3) ''describe'' = Some (Data (Fn ''Sub.prototype.describe'') True)
        \<and> get_prop h' e ''describe'' = Some Undefined
        \<and> get_prop h' e ''constructor'' = Some (Class 2))"
proof -
  let ?h = "example_heap @ [subclass_prototype_obj 3 2]"
  have l: "length example_heap = 3" and p: "prototype NetworkError = 2"
    by (simp_all add: example_heap_def NetworkError_def TaggedError_def realm0_def)
  have r: "realm ?h" and cl: "class_on ?h NetworkError"
    using example_class l
    by (auto simp: realm_def class_on_def nth_append object_prototype_def error_prototype_def)
  have s: "3 < length ?h" "proto (?h ! 3) = Some (prototype NetworkError)"
    "3 \<noteq> prototype NetworkError" "3 \<noteq> error_prototype" "3 \<noteq> object_prototype"
    by (simp_all add: l p nth_append subclass_prototype_obj_def error_prototype_def
        object_prototype_def)
  have k: "''__proto__'' \<notin> payload_keys (Some network_payload)"
    by (simp add: payload_keys_def network_payload_def)
  have g: "result_get (construct_fields ?h NetworkError 3 example_trace (Some network_payload))
      ''describe'' = Some (Fn ''Sub.prototype.describe'')"
    by (simp add: eval_defs example_heap_def NetworkError_def network_payload_def)
  have "\<exists>h' e. construct ?h NetworkError 3 example_trace (Some network_payload) = Inr (h', e)"
    by (simp add: eval_defs example_heap_def NetworkError_def network_payload_def)
  then obtain h' e where
    c: "construct ?h NetworkError 3 example_trace (Some network_payload) = Inr (h', e)"
    by blast
  note t = subclass_instance_is_reparented [OF r cl s c]
  from t [THEN conjunct1] obtain h4 where
    f: "construct_fields ?h NetworkError 3 example_trace (Some network_payload) = Inr (h4, e)"
    and b: "''__proto__'' \<notin> payload_keys (Some network_payload) \<longrightarrow>
          proto (h4 ! e) = Some 3 \<and> instance_of h4 e 3 = Some True
          \<and> instance_of h4 e (prototype NetworkError) = Some True"
    by blast
  note u = t [THEN conjunct2]
  have a1: "proto (h' ! e) = Some 2" using u [THEN conjunct1] by (simp add: p)
  have a2: "instance_of h' e 3 = Some False" using u [THEN conjunct2, THEN conjunct1] .
  have a3: "instance_of h' e 2 = Some True"
    using u [THEN conjunct2, THEN conjunct2, THEN conjunct1] by (simp add: p)
  note rd = u [THEN conjunct2, THEN conjunct2, THEN conjunct2, THEN conjunct1, rule_format]
  note mb = u [THEN conjunct2, THEN conjunct2, THEN conjunct2, THEN conjunct2, THEN conjunct1,
      rule_format]
  note sm = u [THEN conjunct2, THEN conjunct2, THEN conjunct2, THEN conjunct2, THEN conjunct2]
  have own: "props (h' ! e) ''describe'' = None" "props (h' ! e) ''constructor'' = None"
    using construct_Inr(7) [OF c, of "''describe''"] construct_Inr(7) [OF c, of "''constructor''"]
    by (simp_all add: payload_keys_def network_payload_def)
  have d: "props (?h ! 3) ''describe'' = Some (Data (Fn ''Sub.prototype.describe'') True)"
    by (simp add: l nth_append subclass_prototype_obj_def)
  have a4: "props (h' ! 3) ''describe'' = Some (Data (Fn ''Sub.prototype.describe'') True)"
    using sm d by simp
  have a5: "get_prop h' e ''describe'' = Some Undefined"
    by (rule mb) (simp_all add: own d class_prototype_obj_def Error_prototype_obj_def
        Object_prototype_obj_def)
  have r': "realm h'" using r c by (rule construct_keeps_realm)
  have c': "class_on h' NetworkError" using cl c by (rule construct_keeps_class)
  have "get_prop h' e ''constructor'' = get_prop h' (prototype NetworkError) ''constructor''"
    by (rule rd) (simp_all add: own)
  with class_get_constructor [OF r' c'] have a6: "get_prop h' e ''constructor'' = Some (Class 2)"
    by (simp add: p)
  from b k have a0: "proto (h4 ! e) = Some 3" "instance_of h4 e 3 = Some True" by simp_all
  show ?thesis
    using r cl p s(2) k g f c a0 a1 a2 a3 a4 a5 a6
    by (intro conjI exI [of _ h4] exI [of _ h'] exI [of _ e]) (simp_all add: p)
qed

end
